theory Spec2Isabelle
  imports Complex_Main
begin

section \<open>Python values and the string operations the service relies on\<close>

text \<open>
  Strings are byte strings (the UTF-8 encoding of Python's \<open>str\<close>).  The float of the
  source is embedded as the real number it denotes; only comparison and decimal formatting
  of finite values are used by the code.
\<close>

datatype exn =
    IndexError
  | KeyError string
  | TypeError
  | CollaboratorError string
  | Unmodelled string

datatype pyval =
    PyNone
  | PyBool bool
  | PyFloat real
  | PyStr string
  | SERVER_TIMESTAMP

type_synonym dict = "string \<rightharpoonup> pyval"

text \<open>\<open>str.lower()\<close> on the ASCII letters; every other byte is left alone.\<close>

definition lower_char :: "char \<Rightarrow> char" where
  "lower_char c =
     (case map_of (zip ''ABCDEFGHIJKLMNOPQRSTUVWXYZ'' ''abcdefghijklmnopqrstuvwxyz'') c of
        None \<Rightarrow> c
      | Some l \<Rightarrow> l)"

definition lower :: "string \<Rightarrow> string" where
  "lower s = map lower_char s"

text \<open>\<open>s.startswith(p)\<close> and the substring test \<open>sub in s\<close>.\<close>

fun startswith :: "string \<Rightarrow> string \<Rightarrow> bool" where
  "startswith s [] = True"
| "startswith [] (p # ps) = False"
| "startswith (c # s) (p # ps) = (c = p \<and> startswith s ps)"

fun str_contains :: "string \<Rightarrow> string \<Rightarrow> bool" where
  "str_contains sub [] = (sub = [])"
| "str_contains sub (c # s) = (startswith (c # s) sub \<or> str_contains sub s)"

text \<open>\<open>x or ""\<close> for an optional string.\<close>

fun or_empty :: "string option \<Rightarrow> string" where
  "or_empty None = []"
| "or_empty (Some s) = s"

text \<open>\<open>str(n)\<close> for an integer: decimal digits, with a minus sign when negative.\<close>

definition digit_char :: "nat \<Rightarrow> char" where
  "digit_char d = ''0123456789'' ! (d mod 10)"

function str_nat :: "nat \<Rightarrow> string" where
  "str_nat n = (if n < 10 then [digit_char n] else str_nat (n div 10) @ [digit_char (n mod 10)])"
  by pat_completeness auto
termination
  by (relation "measure (\<lambda>n. n)") auto

declare str_nat.simps [simp del]

definition str_int :: "int \<Rightarrow> string" where
  "str_int i = (if i < 0 then CHR ''-'' # str_nat (nat (- i)) else str_nat (nat i))"

section \<open>Component Vocabulary Matcher\<close>

definition COMPONENTS :: "string list" where
  "COMPONENTS = [''erc'', ''liner'', ''sleeper'', ''clip'', ''pad'', ''bolt'']"

text \<open>The \<open>for comp in [...]\<close> loop of \<open>parse_component\<close>: return at the first hit.\<close>

fun parse_component_loop :: "string \<Rightarrow> string list \<Rightarrow> string option" where
  "parse_component_loop name [] = None"
| "parse_component_loop name (c # cs) =
     (if str_contains c name then Some c else parse_component_loop name cs)"

definition parse_component :: "string option \<Rightarrow> string option" where
  "parse_component class_name =
     (let name = lower (or_empty class_name) in parse_component_loop name COMPONENTS)"

text \<open>
  The specification's reading of the test: a label contains a component
  case-insensitively when some contiguous piece of the label, \<open>n\<close> characters from
  position \<open>i\<close> on, lower-cases to it.
\<close>

definition contains_ci :: "string \<Rightarrow> string \<Rightarrow> bool" where
  "contains_ci label c =
     (\<exists>i \<in> {0..length label}. \<exists>n \<in> {0..length label - i}.
        lower (take n (drop i label)) = c)"

section \<open>Best-Detection Selector\<close>

definition CLASS_NAMES :: "string list" where
  "CLASS_NAMES =
    [''clip_ok'', ''liner_ok'', ''pad_ok'', ''sleeper_ok'', ''bolt_ok'', ''erc_ok'',
     ''clip_faulty'', ''liner_faulty'', ''pad_faulty'', ''sleeper_faulty'', ''bolt_faulty'',
     ''erc_faulty'',
     ''clip_rust'', ''liner_rust'', ''pad_rust'', ''sleeper_rust'', ''bolt_rust'', ''erc_rust'',
     ''clip_missing'', ''liner_missing'', ''pad_missing'', ''sleeper_missing'',
     ''bolt_missing'', ''erc_missing'',
     ''qr_code'']"

text \<open>
  One detection as the loop reads it: \<open>float(b.conf)\<close> and \<open>int(b.cls)\<close>.
  The result object \<open>r\<close> of the detector carries the boxes (possibly \<open>None\<close>) and,
  when it has one, the label dictionary \<open>r.names\<close>.
\<close>

record box =
  conf :: real
  cls :: int

record yolo_result =
  boxes :: "box list option"
  names :: "(int \<rightharpoonup> string) option"

text \<open>The dictionary \<open>best\<close> built by the loop, with its three fixed keys.\<close>

record detection =
  component :: string
  confidence :: real
  class_name :: string

text \<open>
  Python list indexing \<open>xs[i]\<close>: a negative index counts from the end, and an index
  outside \<open>-len(xs) .. len(xs)-1\<close> raises \<open>IndexError\<close>.
\<close>

definition py_index :: "'a list \<Rightarrow> int \<Rightarrow> exn + 'a" where
  "py_index xs i =
     (if 0 \<le> i \<and> i < int (length xs) then Inr (xs ! nat i)
      else if i < 0 \<and> - int (length xs) \<le> i then Inr (xs ! nat (int (length xs) + i))
      else Inl IndexError)"

text \<open>Lines 143 to 148: the label of a class id.\<close>

definition resolve_class_name :: "(int \<rightharpoonup> string) option \<Rightarrow> int \<Rightarrow> exn + string" where
  "resolve_class_name r_names cls_id =
     (case (case r_names of None \<Rightarrow> None | Some d \<Rightarrow> d cls_id) of
        Some l \<Rightarrow> Inr l
      | None \<Rightarrow>
          if cls_id < int (length CLASS_NAMES) then py_index CLASS_NAMES cls_id
          else Inr (str_int cls_id))"

text \<open>
  The \<open>for b in r.boxes\<close> loop, with the two loop variables \<open>best\<close> and
  \<open>best_conf\<close> passed along.  An exception raised in the body leaves the loop.
\<close>

fun run_pt_inference_loop ::
  "(int \<rightharpoonup> string) option \<Rightarrow> detection option \<Rightarrow> real \<Rightarrow> box list \<Rightarrow> exn + detection option"
where
  "run_pt_inference_loop r_names best best_conf [] = Inr best"
| "run_pt_inference_loop r_names best best_conf (b # bs) =
     (case resolve_class_name r_names (cls b) of
        Inl e \<Rightarrow> Inl e
      | Inr cn \<Rightarrow>
          (case parse_component (Some cn) of
             None \<Rightarrow> run_pt_inference_loop r_names best best_conf bs
           | Some c \<Rightarrow>
               if conf b > best_conf
               then run_pt_inference_loop r_names
                      (Some \<lparr>component = c, confidence = conf b, class_name = cn\<rparr>) (conf b) bs
               else run_pt_inference_loop r_names best best_conf bs))"

text \<open>Lines 132 to 162: from the first result object to the returned \<open>best\<close>.\<close>

definition select_best :: "yolo_result \<Rightarrow> exn + detection option" where
  "select_best r =
     (case boxes r of
        None \<Rightarrow> Inr None
      | Some bs \<Rightarrow>
          if length bs = 0 then Inr None
          else run_pt_inference_loop (names r) None (- 1) bs)"

text \<open>
  The label of a class id in the words of the specification: the entry of the model's
  own label map when the map exists and has the id, else the static table at the id when
  the id is one of its positions, else the id printed as a number.
\<close>

definition static_label :: "int \<Rightarrow> string" where
  "static_label cls_id =
     (if 0 \<le> cls_id \<and> cls_id < int (length CLASS_NAMES) then CLASS_NAMES ! nat cls_id
      else str_int cls_id)"

definition spec_label :: "(int \<rightharpoonup> string) option \<Rightarrow> int \<Rightarrow> string" where
  "spec_label r_names cls_id =
     (case r_names of
        None \<Rightarrow> static_label cls_id
      | Some d \<Rightarrow> (case d cls_id of None \<Rightarrow> static_label cls_id | Some l \<Rightarrow> l))"

text \<open>
  The match a single detection gives rise to, if its label names a component, and the
  matches of a detection list in the order of the list.
\<close>

definition candidate :: "(int \<rightharpoonup> string) option \<Rightarrow> box \<Rightarrow> detection option" where
  "candidate r_names b =
     (case parse_component (Some (spec_label r_names (cls b))) of
        None \<Rightarrow> None
      | Some c \<Rightarrow>
          Some \<lparr>component = c, confidence = conf b, class_name = spec_label r_names (cls b)\<rparr>)"

fun candidates :: "(int \<rightharpoonup> string) option \<Rightarrow> box list \<Rightarrow> detection list" where
  "candidates r_names [] = []"
| "candidates r_names (b # bs) =
     (case candidate r_names b of
        None \<Rightarrow> candidates r_names bs
      | Some d \<Rightarrow> d # candidates r_names bs)"

text \<open>The running best of the loop, replayed over a list of matches.\<close>

fun running_best :: "detection option \<Rightarrow> real \<Rightarrow> detection list \<Rightarrow> detection option" where
  "running_best best best_conf [] = best"
| "running_best best best_conf (d # ds) =
     (if confidence d > best_conf then running_best (Some d) (confidence d) ds
      else running_best best best_conf ds)"

section \<open>Dictionaries on the heap\<close>

text \<open>
  \<open>result_json\<close> and \<open>doc\<close> are mutable dictionaries, and the handlers write to
  \<open>result_json\<close> after the adapter has seen it.  Objects therefore live in a heap: a
  reference is an index into the list of allocated dictionaries.
\<close>

type_synonym addr = nat
type_synonym heap = "dict list"

definition new_dict :: "dict \<Rightarrow> heap \<Rightarrow> addr \<times> heap" where
  "new_dict d h = (length h, h @ [d])"

definition setitem :: "addr \<Rightarrow> string \<Rightarrow> pyval \<Rightarrow> heap \<Rightarrow> heap" where
  "setitem a k v h = h[a := (h ! a)(k \<mapsto> v)]"

definition getitem :: "addr \<Rightarrow> string \<Rightarrow> heap \<Rightarrow> exn + pyval" where
  "getitem a k h = (case (h ! a) k of None \<Rightarrow> Inl (KeyError k) | Some v \<Rightarrow> Inr v)"

section \<open>Configuration and collaborators\<close>

text \<open>
  The document store client: \<open>document\<close> stands for
  \<open>db_fs.collection(name).document()\<close> and yields the identifier of the fresh reference,
  \<open>set_document\<close> for \<open>ref.set(doc)\<close>.  Both act on the state \<open>'st\<close> of the store
  and may raise.
\<close>

record 'st firestore_client =
  document :: "string \<Rightarrow> 'st \<Rightarrow> exn + (string \<times> 'st)"
  set_document :: "string \<Rightarrow> string \<Rightarrow> dict \<Rightarrow> 'st \<Rightarrow> exn + 'st"

text \<open>
  The module-level configuration read from the environment at start-up, the global
  \<open>db_fs\<close> left by \<open>init_firestore\<close> (\<open>None\<close> when the store is not configured), and
  the image and detector libraries.
\<close>

record ('img, 'st) env =
  PT_MODEL_PATH :: string
  CONF_THRESHOLD :: real
  FIRESTORE_COLLECTION :: string
  db_fs :: "'st firestore_client option"
  imdecode :: "string \<Rightarrow> exn + 'img option"
  cvtColor :: "'img \<Rightarrow> exn + 'img"
  predict :: "'img \<Rightarrow> real \<Rightarrow> exn + yolo_result list"

text \<open>
  \<open>run_pt_inference\<close>: colour conversion, the detector call with the configured
  threshold, \<open>results[0]\<close>, then the selection of lines 132 to 162.
\<close>

definition run_pt_inference :: "('img, 'st) env \<Rightarrow> 'img \<Rightarrow> exn + detection option" where
  "run_pt_inference env image_bgr =
     (case cvtColor env image_bgr of
        Inl e \<Rightarrow> Inl e
      | Inr image_rgb \<Rightarrow>
          (case predict env image_rgb (CONF_THRESHOLD env) of
             Inl e \<Rightarrow> Inl e
           | Inr results \<Rightarrow>
               (case py_index results 0 of
                  Inl e \<Rightarrow> Inl e
                | Inr r \<Rightarrow> select_best r)))"

text \<open>\<open>os.path.basename\<close>: what follows the last slash.\<close>

definition basename :: "string \<Rightarrow> string" where
  "basename p = rev (takeWhile (\<lambda>c. c \<noteq> CHR ''/'') (rev p))"

text \<open>\<open>s or None\<close> for a string.\<close>

definition str_or_None :: "string \<Rightarrow> pyval" where
  "str_or_None s = (if s = [] then PyNone else PyStr s)"

section \<open>Persistence Adapter\<close>

definition save_result_to_firestore ::
  "('img, 'st) env \<Rightarrow> addr \<Rightarrow> string \<Rightarrow> string \<Rightarrow> heap \<Rightarrow> 'st
     \<Rightarrow> exn + (string option \<times> heap \<times> 'st)"
where
  "save_result_to_firestore env result_json material_id source h st =
     (case db_fs env of
        None \<Rightarrow> Inr (None, h, st)
      | Some db \<Rightarrow>
          (let (doc, h0) = new_dict (h ! result_json) h;
               h1 = setitem doc ''materialId'' (str_or_None material_id) h0;
               h2 = setitem doc ''source'' (str_or_None source) h1;
               h3 = setitem doc ''threshold'' (PyFloat (CONF_THRESHOLD env)) h2;
               h4 = setitem doc ''model'' (PyStr (basename (PT_MODEL_PATH env))) h3;
               h5 = setitem doc ''createdAt'' SERVER_TIMESTAMP h4
           in case document db (FIRESTORE_COLLECTION env) st of
                Inl e \<Rightarrow> Inl e
              | Inr (ref_id, st1) \<Rightarrow>
                  (let h6 = setitem doc ''id'' (PyStr ref_id) h5
                   in case set_document db (FIRESTORE_COLLECTION env) ref_id (h6 ! doc) st1 of
                        Inl e \<Rightarrow> Inl e
                      | Inr st2 \<Rightarrow> Inr (Some ref_id, h6, st2))))"

section \<open>Serialisation helpers of the redirect\<close>

text \<open>Truthiness, \<open>x or ""\<close>, \<open>float(x)\<close> and \<open>str(x)\<close> on dictionary values.\<close>

fun truthy :: "pyval \<Rightarrow> bool" where
  "truthy PyNone = False"
| "truthy (PyBool b) = b"
| "truthy (PyFloat x) = (x \<noteq> 0)"
| "truthy (PyStr s) = (s \<noteq> [])"
| "truthy SERVER_TIMESTAMP = True"

definition py_or_empty :: "pyval \<Rightarrow> pyval" where
  "py_or_empty v = (if truthy v then v else PyStr [])"

text \<open>
  Parsing a string as a float and printing a float or the timestamp sentinel with
  \<open>str\<close> are library behaviour outside this model; they are marked as such.
\<close>

fun py_float :: "pyval \<Rightarrow> exn + real" where
  "py_float (PyFloat x) = Inr x"
| "py_float (PyBool b) = Inr (if b then 1 else 0)"
| "py_float PyNone = Inl TypeError"
| "py_float SERVER_TIMESTAMP = Inl TypeError"
| "py_float (PyStr s) = Inl (Unmodelled ''float(str)'')"

fun py_str :: "pyval \<Rightarrow> exn + string" where
  "py_str (PyStr s) = Inr s"
| "py_str PyNone = Inr ''None''"
| "py_str (PyBool b) = Inr (if b then ''True'' else ''False'')"
| "py_str (PyFloat x) = Inl (Unmodelled ''str(float)'')"
| "py_str SERVER_TIMESTAMP = Inl (Unmodelled ''str(Sentinel)'')"

text \<open>
  The format specification \<open>.6f\<close>: the decimal expansion of the value rounded to six
  places (ties to even), at least one digit before the point.
\<close>

definition round_half_even :: "real \<Rightarrow> int" where
  "round_half_even x =
     (let f = \<lfloor>x\<rfloor>; d = x - of_int f
      in if d < 1 / 2 then f else if 1 / 2 < d then f + 1 else if even f then f else f + 1)"

definition zfill :: "nat \<Rightarrow> string \<Rightarrow> string" where
  "zfill w s = replicate (w - length s) CHR ''0'' @ s"

definition format_6f :: "real \<Rightarrow> string" where
  "format_6f x =
     (let n = nat (round_half_even (\<bar>x\<bar> * 1000000))
      in (if x < 0 then ''-'' else [])
           @ str_nat (n div 1000000) @ ''.'' @ zfill 6 (str_nat (n mod 1000000)))"

text \<open>
  \<open>urllib.parse.urlencode\<close> of a dictionary given as its items in insertion order:
  \<open>quote_plus\<close> of each key and of the \<open>str\<close> of each value, joined by \<open>=\<close> and
  \<open>&\<close>.
\<close>

definition ALWAYS_SAFE :: string where
  "ALWAYS_SAFE =
     ''ABCDEFGHIJKLMNOPQRSTUVWXYZabcdefghijklmnopqrstuvwxyz0123456789_.-~''"

definition hex_digit :: "nat \<Rightarrow> char" where
  "hex_digit d = ''0123456789ABCDEF'' ! (d mod 16)"

definition quote_plus_char :: "char \<Rightarrow> string" where
  "quote_plus_char c =
     (if c = CHR '' '' then ''+''
      else if c \<in> set ALWAYS_SAFE then [c]
      else [CHR ''%'', hex_digit (of_char c div 16), hex_digit (of_char c mod 16)])"

definition quote_plus :: "string \<Rightarrow> string" where
  "quote_plus s = concat (map quote_plus_char s)"

fun join :: "string \<Rightarrow> string list \<Rightarrow> string" where
  "join sep [] = []"
| "join sep [x] = x"
| "join sep (x # y # ys) = x @ sep @ join sep (y # ys)"

fun urlencode_items :: "(string \<times> pyval) list \<Rightarrow> exn + string list" where
  "urlencode_items [] = Inr []"
| "urlencode_items ((k, v) # kvs) =
     (case py_str v of
        Inl e \<Rightarrow> Inl e
      | Inr sv \<Rightarrow>
          (case urlencode_items kvs of
             Inl e \<Rightarrow> Inl e
           | Inr l \<Rightarrow> Inr ((quote_plus k @ ''='' @ quote_plus sv) # l)))"

definition urlencode :: "(string \<times> pyval) list \<Rightarrow> exn + string" where
  "urlencode query =
     (case urlencode_items query of Inl e \<Rightarrow> Inl e | Inr l \<Rightarrow> Inr (join ''&'' l))"

section \<open>Request handlers\<close>

text \<open>
  An uploaded file is false in a condition when its file name is empty.  A response is a
  text body or a JSON body with a status code, or a redirect to a URL.
\<close>

record file_storage =
  filename :: string
  stream :: string

record request =
  http_method :: string
  files :: "string \<rightharpoonup> file_storage"
  form :: "string \<rightharpoonup> string"

datatype response =
    Text string nat
  | Json dict nat
  | Redirect string

definition not_file :: "file_storage option \<Rightarrow> bool" where
  "not_file file = (case file of None \<Rightarrow> True | Some f \<Rightarrow> filename f = [])"

text \<open>\<open>request.form.get(key, "")\<close>.\<close>

definition form_get :: "request \<Rightarrow> string \<Rightarrow> string" where
  "form_get req key = (case form req key of None \<Rightarrow> [] | Some v \<Rightarrow> v)"

text \<open>An optional document identifier as a dictionary value.\<close>

definition opt_str :: "string option \<Rightarrow> pyval" where
  "opt_str x = (case x of None \<Rightarrow> PyNone | Some s \<Rightarrow> PyStr s)"

text \<open>Lines 236 to 249: the dictionary literal that \<open>verify_web\<close> builds from \<open>det\<close>.\<close>

definition verify_web_result_json :: "detection option \<Rightarrow> dict" where
  "verify_web_result_json det =
     (case det of
        None \<Rightarrow>
          [''ok'' \<mapsto> PyBool True, ''status'' \<mapsto> PyStr ''not_detected'',
           ''component'' \<mapsto> PyNone, ''confidence'' \<mapsto> PyFloat 0]
      | Some d \<Rightarrow>
          [''ok'' \<mapsto> PyBool True, ''status'' \<mapsto> PyStr ''verified'',
           ''component'' \<mapsto> PyStr (component d), ''confidence'' \<mapsto> PyFloat (confidence d)])"

text \<open>Lines 289 to 302: the same literal, written out again in \<open>api_verify\<close>.\<close>

definition api_verify_result_json :: "detection option \<Rightarrow> dict" where
  "api_verify_result_json det =
     (case det of
        None \<Rightarrow>
          [''ok'' \<mapsto> PyBool True, ''status'' \<mapsto> PyStr ''not_detected'',
           ''component'' \<mapsto> PyNone, ''confidence'' \<mapsto> PyFloat 0]
      | Some d \<Rightarrow>
          [''ok'' \<mapsto> PyBool True, ''status'' \<mapsto> PyStr ''verified'',
           ''component'' \<mapsto> PyStr (component d), ''confidence'' \<mapsto> PyFloat (confidence d)])"

text \<open>
  Lines 256 to 262: the dictionary literal handed to \<open>urlencode\<close>, as its items in
  order.  The values are read back from \<open>result_json\<close> on the heap.
\<close>

definition verify_web_query ::
  "string \<Rightarrow> addr \<Rightarrow> string option \<Rightarrow> heap \<Rightarrow> exn + (string \<times> pyval) list"
where
  "verify_web_query material_id result_json doc_id h =
     (case getitem result_json ''status'' h of
        Inl e \<Rightarrow> Inl e
      | Inr status \<Rightarrow>
     (case getitem result_json ''component'' h of
        Inl e \<Rightarrow> Inl e
      | Inr comp_v \<Rightarrow>
     (case getitem result_json ''confidence'' h of
        Inl e \<Rightarrow> Inl e
      | Inr conf_v \<Rightarrow>
     (case py_float conf_v of
        Inl e \<Rightarrow> Inl e
      | Inr x \<Rightarrow>
          Inr [(''id'', PyStr material_id),
               (''aiStatus'', status),
               (''aiComponent'', py_or_empty comp_v),
               (''aiConfidence'', PyStr (format_6f x)),
               (''aiDocId'', PyStr (or_empty doc_id))]))))"

text \<open>Lines 255 to 263: \<open>redirect(f"{callback}?{q}")\<close>.\<close>

definition verify_web_redirect ::
  "string \<Rightarrow> string \<Rightarrow> addr \<Rightarrow> string option \<Rightarrow> heap \<Rightarrow> exn + response"
where
  "verify_web_redirect callback material_id result_json doc_id h =
     (case verify_web_query material_id result_json doc_id h of
        Inl e \<Rightarrow> Inl e
      | Inr query \<Rightarrow>
          (case urlencode query of
             Inl e \<Rightarrow> Inl e
           | Inr q \<Rightarrow> Inr (Redirect (callback @ ''?'' @ q))))"

definition verify_web ::
  "('img, 'st) env \<Rightarrow> request \<Rightarrow> heap \<Rightarrow> 'st \<Rightarrow> exn + (response \<times> heap \<times> 'st)"
where
  "verify_web env req h st =
     (let file = files req ''image'';
          callback = form_get req ''callback'';
          material_id = form_get req ''materialId''
      in if not_file file then Inr (Text ''No image'' 400, h, st)
         else
     (case imdecode env (stream (the file)) of
        Inl e \<Rightarrow> Inl e
      | Inr None \<Rightarrow> Inr (Text ''Failed to decode image'' 400, h, st)
      | Inr (Some img_bgr) \<Rightarrow>
     (case run_pt_inference env img_bgr of
        Inl e \<Rightarrow> Inl e
      | Inr det \<Rightarrow>
     (let (result_json, h1) = new_dict (verify_web_result_json det) h
      in case save_result_to_firestore env result_json material_id ''verify_web'' h1 st of
           Inl e \<Rightarrow> Inl e
         | Inr (doc_id, h2, st2) \<Rightarrow>
             if callback \<noteq> []
             then (case verify_web_redirect callback material_id result_json doc_id h2 of
                     Inl e \<Rightarrow> Inl e
                   | Inr resp \<Rightarrow> Inr (resp, h2, st2))
             else (let h3 = setitem result_json ''docId'' (opt_str doc_id) h2
                   in Inr (Json (h3 ! result_json) 200, h3, st2))))))"

definition api_verify ::
  "('img, 'st) env \<Rightarrow> request \<Rightarrow> heap \<Rightarrow> 'st \<Rightarrow> exn + (response \<times> heap \<times> 'st)"
where
  "api_verify env req h st =
     (if http_method req = ''OPTIONS'' then Inr (Text [] 204, h, st)
      else
     (let file = files req ''image''
      in if not_file file
         then Inr (Json [''ok'' \<mapsto> PyBool False, ''error'' \<mapsto> PyStr ''image is required''] 400,
                   h, st)
         else
     (let material_id = form_get req ''materialId''
      in case imdecode env (stream (the file)) of
           Inl e \<Rightarrow> Inl e
         | Inr None \<Rightarrow>
             Inr (Json [''ok'' \<mapsto> PyBool False, ''error'' \<mapsto> PyStr ''failed to decode image'']
                    400, h, st)
         | Inr (Some img_bgr) \<Rightarrow>
     (case run_pt_inference env img_bgr of
        Inl e \<Rightarrow> Inl e
      | Inr det \<Rightarrow>
     (let (result_json, h1) = new_dict (api_verify_result_json det) h
      in case save_result_to_firestore env result_json material_id ''api_verify'' h1 st of
           Inl e \<Rightarrow> Inl e
         | Inr (doc_id, h2, st2) \<Rightarrow>
             (let h3 = setitem result_json ''docId'' (opt_str doc_id) h2
              in Inr (Json (h3 ! result_json) 200, h3, st2)))))))"

section \<open>The specification's records\<close>

text \<open>
  The VerificationResult of the specification, as the JSON object with the four fields
  \<open>ok\<close>, \<open>status\<close>, \<open>component\<close> and \<open>confidence\<close>, and the Verdict Builder in the
  specification's words: no match gives \<open>not_detected\<close> with a null component and
  confidence \<open>0.0\<close>, a match gives \<open>verified\<close> with the match's component and
  confidence.
\<close>

definition VerificationResult :: "bool \<Rightarrow> string \<Rightarrow> string option \<Rightarrow> real \<Rightarrow> dict" where
  "VerificationResult ok_flag status comp_id score =
     [''ok'' \<mapsto> PyBool ok_flag, ''status'' \<mapsto> PyStr status,
      ''component'' \<mapsto> opt_str comp_id, ''confidence'' \<mapsto> PyFloat score]"

definition verdict_builder :: "detection option \<Rightarrow> dict" where
  "verdict_builder m =
     (case m of
        None \<Rightarrow> VerificationResult True ''not_detected'' None 0
      | Some d \<Rightarrow> VerificationResult True ''verified'' (Some (component d)) (confidence d))"

definition RESULT_FIELDS :: "string list" where
  "RESULT_FIELDS = [''ok'', ''status'', ''component'', ''confidence'']"

text \<open>The five provenance fields named by the specification's glossary.\<close>

definition PROVENANCE_FIELDS :: "string list" where
  "PROVENANCE_FIELDS = [''materialId'', ''source'', ''threshold'', ''model'', ''createdAt'']"


text \<open>
  The query parameters of the redirect in the specification's words: \<open>id\<close>,
  \<open>aiStatus\<close>, \<open>aiComponent\<close> (empty when there is no component), \<open>aiConfidence\<close>
  (a text of six decimal places) and \<open>aiDocId\<close> (empty when persistence was skipped).
\<close>

definition redirect_params ::
  "string \<Rightarrow> detection option \<Rightarrow> string \<Rightarrow> string option \<Rightarrow> (string \<times> string) list"
where
  "redirect_params material_id det six_places doc_id =
     [(''id'', material_id),
      (''aiStatus'', case det of None \<Rightarrow> ''not_detected'' | Some d \<Rightarrow> ''verified''),
      (''aiComponent'', case det of None \<Rightarrow> [] | Some d \<Rightarrow> component d),
      (''aiConfidence'', six_places),
      (''aiDocId'', case doc_id of None \<Rightarrow> [] | Some i \<Rightarrow> i)]"

text \<open>The confidence of a verdict: \<open>0.0\<close> when nothing was detected.\<close>

definition verdict_confidence :: "detection option \<Rightarrow> real" where
  "verdict_confidence det = (case det of None \<Rightarrow> 0 | Some d \<Rightarrow> confidence d)"

text \<open>
  The document that lines 98 to 106 build from the dictionary \<open>result\<close> and the
  identifier of the fresh reference, written as one update of \<open>result\<close>.
\<close>

definition stored_doc :: "('img, 'st) env \<Rightarrow> dict \<Rightarrow> string \<Rightarrow> string \<Rightarrow> string \<Rightarrow> dict" where
  "stored_doc env result material_id source ref_id =
     result(''materialId'' \<mapsto> str_or_None material_id,
            ''source'' \<mapsto> str_or_None source,
            ''threshold'' \<mapsto> PyFloat (CONF_THRESHOLD env),
            ''model'' \<mapsto> PyStr (basename (PT_MODEL_PATH env)),
            ''createdAt'' \<mapsto> SERVER_TIMESTAMP,
            ''id'' \<mapsto> PyStr ref_id)"

text \<open>
  The error response of the specification: a client-error status and a JSON body with a
  false \<open>ok\<close> flag and an error message.
\<close>

definition json_client_error :: "response \<Rightarrow> bool" where
  "json_client_error resp =
     (case resp of
        Json body code \<Rightarrow>
          400 \<le> code \<and> code < 500 \<and> body ''ok'' = Some (PyBool False)
          \<and> (case body ''error'' of Some (PyStr msg) \<Rightarrow> True | _ \<Rightarrow> False)
      | _ \<Rightarrow> False)"

text \<open>
  The redirect target of the specification: the callback followed by the query parameters
  \<open>id\<close>, \<open>aiStatus\<close>, \<open>aiComponent\<close> (empty when there is no component),
  \<open>aiConfidence\<close> (six decimal places) and \<open>aiDocId\<close> (empty when persistence was
  skipped), each value percent-encoded.
\<close>

definition redirect_url :: "string \<Rightarrow> string \<Rightarrow> detection option \<Rightarrow> string option \<Rightarrow> string" where
  "redirect_url callback material_id det doc_id =
     callback @ ''?id='' @ quote_plus material_id
       @ ''&aiStatus='' @ quote_plus (case det of None \<Rightarrow> ''not_detected'' | Some d \<Rightarrow> ''verified'')
       @ ''&aiComponent='' @ quote_plus (case det of None \<Rightarrow> [] | Some d \<Rightarrow> component d)
       @ ''&aiConfidence='' @ quote_plus (format_6f (case det of None \<Rightarrow> 0 | Some d \<Rightarrow> confidence d))
       @ ''&aiDocId='' @ quote_plus (or_empty doc_id)"

section \<open>Reading a redirect back\<close>

text \<open>
  The query parameters a URL carries, as its receiver reads them: the query is what
  follows the first \<open>?\<close> of the part before any \<open>#\<close>; it is cut at every \<open>&\<close>, each
  non-empty piece at its first \<open>=\<close>, and name and value are decoded, \<open>+\<close> standing for
  a space and \<open>%XY\<close> for the byte with hexadecimal code \<open>XY\<close>.
\<close>

definition hex_value :: "char \<Rightarrow> nat option" where
  "hex_value c =
     map_of (zip ''0123456789ABCDEFabcdef''
               [0, 1, 2, 3, 4, 5, 6, 7, 8, 9, 10, 11, 12, 13, 14, 15, 10, 11, 12, 13, 14, 15]) c"

fun unquote_plus :: "string \<Rightarrow> string" where
  "unquote_plus [] = []"
| "unquote_plus (c # s) =
     (if c = CHR ''+'' then CHR '' '' # unquote_plus s
      else if c = CHR ''%'' then
        (case s of
           a # b # t \<Rightarrow>
             (case hex_value a of
                None \<Rightarrow> c # unquote_plus s
              | Some x \<Rightarrow>
                  (case hex_value b of
                     None \<Rightarrow> c # unquote_plus s
                   | Some y \<Rightarrow> char_of (16 * x + y) # unquote_plus t))
         | _ \<Rightarrow> c # unquote_plus s)
      else c # unquote_plus s)"

fun split_on :: "char \<Rightarrow> string \<Rightarrow> string list" where
  "split_on sep [] = [[]]"
| "split_on sep (c # s) =
     (if c = sep then [] # split_on sep s
      else (case split_on sep s of [] \<Rightarrow> [[c]] | x # xs \<Rightarrow> (c # x) # xs))"

definition before_first :: "char \<Rightarrow> string \<Rightarrow> string" where
  "before_first sep s = takeWhile (\<lambda>c. c \<noteq> sep) s"

definition after_first :: "char \<Rightarrow> string \<Rightarrow> string" where
  "after_first sep s = drop 1 (dropWhile (\<lambda>c. c \<noteq> sep) s)"

definition parse_qsl :: "string \<Rightarrow> (string \<times> string) list" where
  "parse_qsl qs =
     map (\<lambda>piece. (unquote_plus (before_first CHR ''='' piece),
                    unquote_plus (after_first CHR ''='' piece)))
       (filter (\<lambda>piece. piece \<noteq> []) (split_on CHR ''&'' qs))"

definition url_query :: "string \<Rightarrow> string" where
  "url_query url = after_first CHR ''?'' (before_first CHR ''#'' url)"

definition url_params :: "string \<Rightarrow> (string \<times> string) list" where
  "url_params url = parse_qsl (url_query url)"

text \<open>One item of an encoded query: encoded name, \<open>=\<close>, encoded value.\<close>

definition encoded_piece :: "string \<times> string \<Rightarrow> string" where
  "encoded_piece kv = quote_plus (fst kv) @ ''='' @ quote_plus (snd kv)"

text \<open>
  A number printed with six decimal places: an optional minus sign, at least one digit,
  a point and exactly six digits, denoting the decimal with six places nearest to the
  number.
\<close>

definition is_digit :: "char \<Rightarrow> bool" where
  "is_digit c = (c \<in> set ''0123456789'')"

definition digit_value :: "char \<Rightarrow> nat" where
  "digit_value c =
     (case map_of (zip ''0123456789'' [0, 1, 2, 3, 4, 5, 6, 7, 8, 9]) c of
        None \<Rightarrow> 0
      | Some d \<Rightarrow> d)"

definition digits_value :: "string \<Rightarrow> nat" where
  "digits_value s = foldl (\<lambda>acc c. 10 * acc + digit_value c) 0 s"

definition six_place_decimal :: "string \<Rightarrow> real \<Rightarrow> bool" where
  "six_place_decimal s x =
     (let body = (if x < 0 then drop 1 s else s);
          whole = before_first CHR ''.'' body;
          places = after_first CHR ''.'' body
      in (x < 0) = (take 1 s = ''-'')
         \<and> body = whole @ ''.'' @ places
         \<and> whole \<noteq> [] \<and> list_all is_digit whole
         \<and> length places = 6 \<and> list_all is_digit places
         \<and> \<bar>real (digits_value whole) + real (digits_value places) / 1000000 - \<bar>x\<bar>\<bar>
               \<le> 1 / 2000000)"

section \<open>Collaborators for worked examples\<close>

text \<open>
  An in-memory document store that numbers its references and appends what is written, a
  store whose write raises, and a detector that always reports the three detections of
  the specification's scenario.  They are used for concrete runs only.
\<close>

type_synonym demo_state = "(string \<times> string \<times> dict) list"

definition demo_store :: "demo_state firestore_client" where
  "demo_store =
     \<lparr>document = (\<lambda>coll st. Inr (''doc'' @ str_nat (length st), st)),
      set_document = (\<lambda>coll ref_id doc st. Inr (st @ [(coll, ref_id, doc)]))\<rparr>"

definition failing_store :: "demo_state firestore_client" where
  "failing_store =
     \<lparr>document = (\<lambda>coll st. Inr (''doc'' @ str_nat (length st), st)),
      set_document = (\<lambda>coll ref_id doc st. Inl (CollaboratorError ''store unavailable''))\<rparr>"

definition demo_boxes :: "box list" where
  "demo_boxes = [\<lparr>conf = 0.81, cls = 16\<rparr>, \<lparr>conf = 0.95, cls = 24\<rparr>, \<lparr>conf = 0.6, cls = 0\<rparr>]"

definition demo_detection :: detection where
  "demo_detection = \<lparr>component = ''bolt'', confidence = 0.81, class_name = ''bolt_rust''\<rparr>"

definition demo_env :: "demo_state firestore_client option \<Rightarrow> (string, demo_state) env" where
  "demo_env db =
     \<lparr>PT_MODEL_PATH = ''/app/best.pt'', CONF_THRESHOLD = 0.35,
      FIRESTORE_COLLECTION = ''ai_verifications'', db_fs = db,
      imdecode = (\<lambda>bytes. Inr (if bytes = [] then None else Some bytes)),
      cvtColor = (\<lambda>img. Inr img),
      predict = (\<lambda>img threshold. Inr [\<lparr>boxes = Some demo_boxes, names = None\<rparr>])\<rparr>"

text \<open>The same environment with no store and a detector that reports nothing.\<close>

definition blank_env :: "(string, demo_state) env" where
  "blank_env =
     (demo_env None)\<lparr>predict := (\<lambda>img threshold. Inr [\<lparr>boxes = Some [], names = None\<rparr>])\<rparr>"

definition demo_request :: "string \<Rightarrow> (string \<rightharpoonup> file_storage) \<Rightarrow> request" where
  "demo_request callback uploaded =
     \<lparr>http_method = ''POST'', files = uploaded,
      form = [''callback'' \<mapsto> callback, ''materialId'' \<mapsto> ''M 1'']\<rparr>"

definition demo_upload :: "string \<rightharpoonup> file_storage" where
  "demo_upload = [''image'' \<mapsto> \<lparr>filename = ''a.jpg'', stream = ''JFIF''\<rparr>]"

text \<open>
  A request whose material id has reserved characters, and an environment whose detector
  reports one detection with a confidence that rounds up in the sixth place.
\<close>

definition reserved_request :: request where
  "reserved_request =
     \<lparr>http_method = ''POST'', files = demo_upload,
      form = [''callback'' \<mapsto> ''http://x/cb'', ''materialId'' \<mapsto> ''a&b=c/d'']\<rparr>"

definition rounding_detection :: detection where
  "rounding_detection =
     \<lparr>component = ''bolt'', confidence = 0.3499996, class_name = ''bolt_rust''\<rparr>"

definition rounding_env :: "(string, demo_state) env" where
  "rounding_env =
     (demo_env (Some demo_store))
       \<lparr>predict :=
          (\<lambda>img threshold. Inr [\<lparr>boxes = Some [\<lparr>conf = 0.3499996, cls = 16\<rparr>], names = None\<rparr>])\<rparr>"

section \<open>Properties of the Matcher\<close>

lemma startswith_iff: "startswith s p \<longleftrightarrow> (\<exists>ss. s = p @ ss)"
  by (induction s p rule: startswith.induct) auto

lemma str_contains_iff: "str_contains sub s \<longleftrightarrow> (\<exists>ps ss. s = ps @ sub @ ss)"
proof (induction s)
  case Nil
  then show ?case by auto
next
  case (Cons c s)
  show ?case
  proof
    assume "str_contains sub (c # s)"
    then consider "startswith (c # s) sub" | "str_contains sub s" by auto
    then show "\<exists>ps ss. c # s = ps @ sub @ ss"
    proof cases
      case 1
      then obtain ss where "c # s = sub @ ss" by (auto simp: startswith_iff)
      then have "c # s = [] @ sub @ ss" by simp
      then show ?thesis by blast
    next
      case 2
      then obtain ps ss where "s = ps @ sub @ ss" using Cons.IH by blast
      then have "c # s = (c # ps) @ sub @ ss" by simp
      then show ?thesis by blast
    qed
  next
    assume "\<exists>ps ss. c # s = ps @ sub @ ss"
    then obtain ps ss where e: "c # s = ps @ sub @ ss" by blast
    show "str_contains sub (c # s)"
    proof (cases ps)
      case Nil
      with e have "startswith (c # s) sub" by (auto simp: startswith_iff)
      then show ?thesis by simp
    next
      case (Cons p ps')
      with e have "s = ps' @ sub @ ss" by simp
      then have "str_contains sub s" using Cons.IH by blast
      then show ?thesis by simp
    qed
  qed
qed

lemma contains_ci_iff: "contains_ci label c \<longleftrightarrow> str_contains c (lower label)"
proof
  assume "contains_ci label c"
  then obtain i n where "lower (take n (drop i label)) = c"
    unfolding contains_ci_def by blast
  moreover have "label = take i label @ take n (drop i label) @ drop n (drop i label)"
    by (simp only: append_take_drop_id)
  then have "lower label
      = lower (take i label) @ lower (take n (drop i label)) @ lower (drop n (drop i label))"
    unfolding lower_def by (metis map_append)
  ultimately show "str_contains c (lower label)"
    unfolding str_contains_iff by blast
next
  assume "str_contains c (lower label)"
  then obtain ps ss where e: "lower label = ps @ c @ ss"
    unfolding str_contains_iff by blast
  then have len: "length label = length ps + length c + length ss"
    by (metis length_append length_map lower_def add.assoc)
  have "lower (take (length c) (drop (length ps) label))
      = take (length c) (drop (length ps) (lower label))"
    by (simp add: lower_def take_map drop_map)
  also have "\<dots> = c" unfolding e by simp
  finally have "lower (take (length c) (drop (length ps) label)) = c" .
  moreover have "length ps \<in> {0..length label}" using len by simp
  moreover have "length c \<in> {0..length label - length ps}" using len by simp
  ultimately show "contains_ci label c"
    unfolding contains_ci_def by blast
qed

lemma parse_component_loop_find:
  "parse_component_loop name cs = find (\<lambda>c. str_contains c name) cs"
  by (induction cs) auto

lemma parse_component_find:
  "parse_component (Some label) = find (contains_ci label) COMPONENTS"
proof -
  have "contains_ci label = (\<lambda>c. str_contains c (lower label))"
    by (rule ext) (simp add: contains_ci_iff)
  then show ?thesis
    by (simp add: parse_component_def parse_component_loop_find)
qed

lemma parse_component_None_eq: "parse_component None = parse_component (Some [])"
  by (simp add: parse_component_def)

lemma contains_ci_qr_code: "c \<in> set COMPONENTS \<Longrightarrow> \<not> contains_ci ''qr_code'' c"
  by (auto simp: contains_ci_iff COMPONENTS_def lower_def lower_char_def)

lemma contains_ci_empty: "c \<in> set COMPONENTS \<Longrightarrow> \<not> contains_ci [] c"
  by (auto simp: contains_ci_iff COMPONENTS_def lower_def)

text \<open>
  Claim C3.  A label that contains exactly one of the six component names, in any mix of
  upper and lower case, is mapped by \<open>parse_component\<close> to that component.  The label
  \<open>qr_code\<close>, every label that contains none of the six names, the empty label and the
  absent label are mapped to no match.  When several names occur in a label, the one that
  comes first in the list erc, liner, sleeper, clip, pad, bolt is returned.
\<close>

theorem parse_component_spec:
  "(\<forall>c \<in> set COMPONENTS.
      contains_ci label c \<and> (\<forall>c' \<in> set COMPONENTS. contains_ci label c' \<longrightarrow> c' = c)
        \<longrightarrow> parse_component (Some label) = Some c)
   \<and> parse_component (Some ''qr_code'') = None
   \<and> ((\<forall>c \<in> set COMPONENTS. \<not> contains_ci label c) \<longrightarrow> parse_component (Some label) = None)
   \<and> parse_component (Some []) = None
   \<and> parse_component None = None
   \<and> (\<forall>i < length COMPONENTS.
        contains_ci label (COMPONENTS ! i) \<and> (\<forall>j < i. \<not> contains_ci label (COMPONENTS ! j))
          \<longrightarrow> parse_component (Some label) = Some (COMPONENTS ! i))"
proof -
  have ordered: "parse_component (Some label) = Some (COMPONENTS ! i)"
    if "i < length COMPONENTS" "contains_ci label (COMPONENTS ! i)"
       "\<forall>j < i. \<not> contains_ci label (COMPONENTS ! j)" for i
    using that unfolding parse_component_find find_Some_iff by blast
  have only: "parse_component (Some label) = Some c"
    if mem: "c \<in> set COMPONENTS" and hit: "contains_ci label c"
      and uniq: "\<forall>c' \<in> set COMPONENTS. contains_ci label c' \<longrightarrow> c' = c" for c
  proof -
    from mem hit have "find (contains_ci label) COMPONENTS \<noteq> None"
      by (auto simp: find_None_iff)
    then obtain c' where f: "find (contains_ci label) COMPONENTS = Some c'"
      by blast
    then have "c' \<in> set COMPONENTS" "contains_ci label c'"
      by (auto simp: find_Some_iff)
    with uniq f show ?thesis by (simp add: parse_component_find)
  qed
  have none: "parse_component (Some l) = None" if "\<forall>c \<in> set COMPONENTS. \<not> contains_ci l c" for l
    using that by (simp add: parse_component_find find_None_iff)
  have qr: "parse_component (Some ''qr_code'') = None"
    by (rule none) (simp add: contains_ci_qr_code)
  have emp: "parse_component (Some []) = None"
    by (rule none) (simp add: contains_ci_empty)
  have absent: "parse_component None = None"
    using emp by (simp add: parse_component_None_eq)
  show ?thesis
  proof (intro conjI ballI allI impI)
    fix c assume "c \<in> set COMPONENTS"
      and "contains_ci label c \<and> (\<forall>c' \<in> set COMPONENTS. contains_ci label c' \<longrightarrow> c' = c)"
    then show "parse_component (Some label) = Some c" using only by blast
  next
    assume "\<forall>c \<in> set COMPONENTS. \<not> contains_ci label c"
    then show "parse_component (Some label) = None" by (rule none)
  next
    fix i assume "i < length COMPONENTS"
      and "contains_ci label (COMPONENTS ! i) \<and> (\<forall>j < i. \<not> contains_ci label (COMPONENTS ! j))"
    then show "parse_component (Some label) = Some (COMPONENTS ! i)" using ordered by blast
  qed (rule qr emp absent)+
qed

theorem parse_component_spec_witness:
  "contains_ci ''Bolt_Rust'' ''bolt''
   \<and> filter (contains_ci ''Bolt_Rust'') COMPONENTS = [''bolt'']
   \<and> parse_component (Some ''Bolt_Rust'') = Some ''bolt''
   \<and> filter (contains_ci ''QR-7'') COMPONENTS = []
   \<and> parse_component (Some ''QR-7'') = None
   \<and> filter (contains_ci ''clipERC'') COMPONENTS = [''erc'', ''clip'']
   \<and> parse_component (Some ''clipERC'') = Some ''erc''"
proof -
  have m: "''bolt'' \<in> set COMPONENTS" by (simp add: COMPONENTS_def)
  have h1: "contains_ci ''Bolt_Rust'' ''bolt''"
    by (simp add: contains_ci_iff lower_def lower_char_def)
  have f1: "filter (contains_ci ''Bolt_Rust'') COMPONENTS = [''bolt'']"
    by (simp add: contains_ci_iff COMPONENTS_def lower_def lower_char_def)
  have f2: "filter (contains_ci ''QR-7'') COMPONENTS = []"
    by (simp add: contains_ci_iff COMPONENTS_def lower_def lower_char_def)
  have f3: "filter (contains_ci ''clipERC'') COMPONENTS = [''erc'', ''clip'']"
    by (simp add: contains_ci_iff COMPONENTS_def lower_def lower_char_def)
  have h2: "\<forall>c' \<in> set COMPONENTS. contains_ci ''Bolt_Rust'' c' \<longrightarrow> c' = ''bolt''"
  proof (intro ballI impI)
    fix c' assume "c' \<in> set COMPONENTS" "contains_ci ''Bolt_Rust'' c'"
    then have "c' \<in> set (filter (contains_ci ''Bolt_Rust'') COMPONENTS)" by simp
    then show "c' = ''bolt''" unfolding f1 by simp
  qed
  have h3: "\<forall>c \<in> set COMPONENTS. \<not> contains_ci ''QR-7'' c"
    using f2 by (simp add: filter_empty_conv)
  have h4: "contains_ci ''clipERC'' (COMPONENTS ! 0)"
    by (simp add: contains_ci_iff COMPONENTS_def lower_def lower_char_def)
  have h5: "(0::nat) < length COMPONENTS" "\<forall>j < (0::nat). \<not> contains_ci ''clipERC'' (COMPONENTS ! j)"
    by (simp_all add: COMPONENTS_def)
  have e: "COMPONENTS ! 0 = ''erc''" by (simp add: COMPONENTS_def)
  have r1: "parse_component (Some ''Bolt_Rust'') = Some ''bolt''"
    using parse_component_spec [of "''Bolt_Rust''"] m h1 h2 by blast
  have r2: "parse_component (Some ''QR-7'') = None"
    using parse_component_spec [of "''QR-7''"] h3 by blast
  have r3: "parse_component (Some ''clipERC'') = Some (COMPONENTS ! 0)"
    using parse_component_spec [of "''clipERC''"] h4 h5 by blast
  from h1 f1 r1 f2 r2 f3 r3 e show ?thesis by simp
qed

section \<open>Properties of the Selector\<close>

lemma resolve_class_name_nonneg:
  "0 \<le> cls_id \<Longrightarrow> resolve_class_name r_names cls_id = Inr (spec_label r_names cls_id)"
  by (auto simp: resolve_class_name_def spec_label_def static_label_def py_index_def
           split: option.splits)

lemma loop_running_best:
  "\<forall>b \<in> set bs. 0 \<le> cls b \<Longrightarrow>
   run_pt_inference_loop r_names best best_conf bs =
     Inr (running_best best best_conf (candidates r_names bs))"
proof (induction bs arbitrary: best best_conf)
  case Nil
  show ?case by simp
next
  case (Cons b bs)
  then have nn: "0 \<le> cls b" and rest: "\<forall>b \<in> set bs. 0 \<le> cls b" by simp_all
  show ?case
  proof (cases "parse_component (Some (spec_label r_names (cls b)))")
    case None
    then have "candidate r_names b = None" by (simp add: candidate_def)
    with None show ?thesis
      by (simp add: resolve_class_name_nonneg [OF nn] Cons.IH [OF rest])
  next
    case (Some c)
    then have "candidate r_names b =
        Some \<lparr>component = c, confidence = conf b, class_name = spec_label r_names (cls b)\<rparr>"
      by (simp add: candidate_def)
    with Some show ?thesis
      by (simp add: resolve_class_name_nonneg [OF nn] Cons.IH [OF rest])
  qed
qed

lemma running_best_cases:
  "(running_best best best_conf ds = best \<and> (\<forall>d \<in> set ds. confidence d \<le> best_conf))
   \<or> (\<exists>i < length ds. running_best best best_conf ds = Some (ds ! i)
         \<and> best_conf < confidence (ds ! i)
         \<and> (\<forall>j < i. confidence (ds ! j) < confidence (ds ! i))
         \<and> (\<forall>j < length ds. confidence (ds ! j) \<le> confidence (ds ! i)))"
proof (induction ds arbitrary: best best_conf)
  case Nil
  show ?case by simp
next
  case (Cons d ds)
  show ?case
  proof (cases "confidence d > best_conf")
    case True
    from Cons.IH [of "Some d" "confidence d"]
    consider (keep) "running_best (Some d) (confidence d) ds = Some d"
                    "\<forall>e \<in> set ds. confidence e \<le> confidence d"
      | (later) i where "i < length ds"
          "running_best (Some d) (confidence d) ds = Some (ds ! i)"
          "confidence d < confidence (ds ! i)"
          "\<forall>j < i. confidence (ds ! j) < confidence (ds ! i)"
          "\<forall>j < length ds. confidence (ds ! j) \<le> confidence (ds ! i)"
      by blast
    then show ?thesis
    proof cases
      case keep
      have all: "\<forall>j < length (d # ds). confidence ((d # ds) ! j) \<le> confidence ((d # ds) ! 0)"
      proof (intro allI impI)
        fix j assume "j < length (d # ds)"
        then show "confidence ((d # ds) ! j) \<le> confidence ((d # ds) ! 0)"
          using keep(2) by (cases j) auto
      qed
      have "0 < length (d # ds)" by simp
      moreover have "running_best best best_conf (d # ds) = Some ((d # ds) ! 0)"
        using True keep(1) by simp
      moreover have "best_conf < confidence ((d # ds) ! 0)" using True by simp
      moreover have "\<forall>j < (0::nat). confidence ((d # ds) ! j) < confidence ((d # ds) ! 0)"
        by simp
      ultimately show ?thesis using all by blast
    next
      case later
      have before: "\<forall>j < Suc i. confidence ((d # ds) ! j) < confidence ((d # ds) ! Suc i)"
      proof (intro allI impI)
        fix j assume "j < Suc i"
        then show "confidence ((d # ds) ! j) < confidence ((d # ds) ! Suc i)"
          using later(3,4) by (cases j) auto
      qed
      have all: "\<forall>j < length (d # ds). confidence ((d # ds) ! j) \<le> confidence ((d # ds) ! Suc i)"
      proof (intro allI impI)
        fix j assume "j < length (d # ds)"
        then show "confidence ((d # ds) ! j) \<le> confidence ((d # ds) ! Suc i)"
          using later(3,5) by (cases j) auto
      qed
      have "Suc i < length (d # ds)" using later(1) by simp
      moreover have "running_best best best_conf (d # ds) = Some ((d # ds) ! Suc i)"
        using True later(2) by simp
      moreover have "best_conf < confidence ((d # ds) ! Suc i)"
        using True later(3) by simp
      ultimately show ?thesis using before all by blast
    qed
  next
    case False
    from Cons.IH [of best best_conf]
    consider (keep) "running_best best best_conf ds = best"
                    "\<forall>e \<in> set ds. confidence e \<le> best_conf"
      | (later) i where "i < length ds"
          "running_best best best_conf ds = Some (ds ! i)"
          "best_conf < confidence (ds ! i)"
          "\<forall>j < i. confidence (ds ! j) < confidence (ds ! i)"
          "\<forall>j < length ds. confidence (ds ! j) \<le> confidence (ds ! i)"
      by blast
    then show ?thesis
    proof cases
      case keep
      then show ?thesis using False by auto
    next
      case later
      have before: "\<forall>j < Suc i. confidence ((d # ds) ! j) < confidence ((d # ds) ! Suc i)"
      proof (intro allI impI)
        fix j assume "j < Suc i"
        then show "confidence ((d # ds) ! j) < confidence ((d # ds) ! Suc i)"
          using later(3,4) False by (cases j) auto
      qed
      have all: "\<forall>j < length (d # ds). confidence ((d # ds) ! j) \<le> confidence ((d # ds) ! Suc i)"
      proof (intro allI impI)
        fix j assume "j < length (d # ds)"
        then show "confidence ((d # ds) ! j) \<le> confidence ((d # ds) ! Suc i)"
          using later(3,5) False by (cases j) auto
      qed
      have "Suc i < length (d # ds)" using later(1) by simp
      moreover have "running_best best best_conf (d # ds) = Some ((d # ds) ! Suc i)"
        using False later(2) by simp
      moreover have "best_conf < confidence ((d # ds) ! Suc i)"
        using later(3) by simp
      ultimately show ?thesis using before all by blast
    qed
  qed
qed


lemma candidates_set:
  "d \<in> set (candidates r_names bs) \<longleftrightarrow> (\<exists>b \<in> set bs. candidate r_names b = Some d)"
  by (induction bs) (auto split: option.splits)

lemma candidate_confidence: "candidate r_names b = Some d \<Longrightarrow> confidence d = conf b"
  by (auto simp: candidate_def split: option.splits)

lemma candidate_None_iff:
  "candidate r_names b = None \<longleftrightarrow> parse_component (Some (spec_label r_names (cls b))) = None"
  by (simp add: candidate_def split: option.splits)

lemma candidates_empty_iff:
  "candidates r_names bs = [] \<longleftrightarrow>
     (\<forall>b \<in> set bs. parse_component (Some (spec_label r_names (cls b))) = None)"
proof -
  have "candidates r_names bs = [] \<longleftrightarrow> (\<forall>d. d \<notin> set (candidates r_names bs))"
    by (cases "candidates r_names bs") auto
  also have "\<dots> \<longleftrightarrow> (\<forall>b \<in> set bs. candidate r_names b = None)"
    unfolding candidates_set by (metis not_Some_eq)
  finally show ?thesis by (simp add: candidate_None_iff)
qed

lemma select_best_running_best:
  assumes "boxes r = Some bs" and "\<forall>b \<in> set bs. 0 \<le> cls b"
  shows "select_best r = Inr (running_best None (- 1) (candidates (names r) bs))"
proof (cases bs)
  case Nil
  with assms(1) show ?thesis by (simp add: select_best_def)
next
  case (Cons b bs')
  then have "length bs \<noteq> 0" by simp
  with assms(1) have "select_best r = run_pt_inference_loop (names r) None (- 1) bs"
    by (simp add: select_best_def)
  then show ?thesis using loop_running_best [OF assms(2)] by simp
qed

lemma running_best_initial:
  assumes "\<forall>d \<in> set ds. - 1 < confidence d"
  shows "(ds = [] \<and> running_best None (- 1) ds = None)
   \<or> (\<exists>i < length ds. running_best None (- 1) ds = Some (ds ! i)
         \<and> (\<forall>j < i. confidence (ds ! j) < confidence (ds ! i))
         \<and> (\<forall>j < length ds. confidence (ds ! j) \<le> confidence (ds ! i)))"
proof -
  from running_best_cases [of None "- 1" ds]
  consider (keep) "running_best None (- 1) ds = None" "\<forall>d \<in> set ds. confidence d \<le> - 1"
    | (later) "\<exists>i < length ds. running_best None (- 1) ds = Some (ds ! i)
         \<and> (\<forall>j < i. confidence (ds ! j) < confidence (ds ! i))
         \<and> (\<forall>j < length ds. confidence (ds ! j) \<le> confidence (ds ! i))"
    by auto
  then show ?thesis
  proof cases
    case keep
    have "ds = []"
    proof (cases ds)
      case (Cons d ds')
      then have "d \<in> set ds" by simp
      with assms keep(2) have "- 1 < confidence d" "confidence d \<le> - 1" by blast+
      then show ?thesis by simp
    qed simp
    with keep(1) show ?thesis by simp
  next
    case later
    then show ?thesis by blast
  qed
qed

lemma Max_confidence:
  assumes "i < length ds" and "\<forall>j < length ds. confidence (ds ! j) \<le> confidence (ds ! i)"
  shows "Max (set (map confidence ds)) = confidence (ds ! i)"
proof (rule Max_eqI)
  show "finite (set (map confidence ds))" by simp
  show "confidence (ds ! i) \<in> set (map confidence ds)" using assms(1) by simp
  fix y assume "y \<in> set (map confidence ds)"
  then obtain j where "j < length ds" "y = confidence (ds ! j)"
    by (auto simp: in_set_conv_nth)
  with assms(2) show "y \<le> confidence (ds ! i)" by simp
qed

text \<open>
  Claim C2.  For a detection list whose class ids are non-negative and whose confidences
  exceed the initial running best \<open>-1.0\<close> (the detector reports class indices and
  confidences between 0 and 1), the selection returns normally.  It returns no detection
  exactly when no detection's label names a component.  Otherwise the confidence of the
  returned detection is the maximum over the detections whose label names a component,
  and the returned detection is the first of them, in list order, that reaches this
  maximum: every earlier one has a strictly smaller confidence.
\<close>

theorem select_best_first_maximum:
  assumes "boxes r = Some bs" and "\<forall>b \<in> set bs. 0 \<le> cls b \<and> - 1 < conf b"
  shows "\<exists>res. select_best r = Inr res
     \<and> (res = None \<longleftrightarrow>
          (\<forall>b \<in> set bs. parse_component (Some (spec_label (names r) (cls b))) = None))
     \<and> (\<forall>d. res = Some d \<longrightarrow>
          confidence d = Max (set (map confidence (candidates (names r) bs)))
          \<and> (\<exists>i < length (candidates (names r) bs).
                 candidates (names r) bs ! i = d
                 \<and> (\<forall>j < i. confidence (candidates (names r) bs ! j) < confidence d)))"
proof -
  define ds where "ds = candidates (names r) bs"
  have nn: "\<forall>b \<in> set bs. 0 \<le> cls b" using assms(2) by blast
  have sel: "select_best r = Inr (running_best None (- 1) ds)"
    unfolding ds_def by (rule select_best_running_best [OF assms(1) nn])
  have above: "\<forall>d \<in> set ds. - 1 < confidence d"
  proof
    fix d assume "d \<in> set ds"
    then obtain b where "b \<in> set bs" "candidate (names r) b = Some d"
      unfolding ds_def candidates_set by blast
    with assms(2) show "- 1 < confidence d" by (simp add: candidate_confidence)
  qed
  have emp: "ds = [] \<longleftrightarrow>
      (\<forall>b \<in> set bs. parse_component (Some (spec_label (names r) (cls b))) = None)"
    unfolding ds_def by (rule candidates_empty_iff)
  from running_best_initial [OF above]
  consider (none) "ds = []" "running_best None (- 1) ds = None"
    | (some) i where "i < length ds" "running_best None (- 1) ds = Some (ds ! i)"
        "\<forall>j < i. confidence (ds ! j) < confidence (ds ! i)"
        "\<forall>j < length ds. confidence (ds ! j) \<le> confidence (ds ! i)"
    by auto
  then have "select_best r = Inr (running_best None (- 1) ds)
     \<and> (running_best None (- 1) ds = None \<longleftrightarrow>
          (\<forall>b \<in> set bs. parse_component (Some (spec_label (names r) (cls b))) = None))
     \<and> (\<forall>d. running_best None (- 1) ds = Some d \<longrightarrow>
          confidence d = Max (set (map confidence ds))
          \<and> (\<exists>i < length ds. ds ! i = d \<and> (\<forall>j < i. confidence (ds ! j) < confidence d)))"
  proof cases
    case none
    with sel emp show ?thesis by simp
  next
    case some
    have "ds \<noteq> []" using some(1) by auto
    moreover have "Max (set (map confidence ds)) = confidence (ds ! i)"
      by (rule Max_confidence [OF some(1) some(4)])
    ultimately show ?thesis using sel some emp by auto
  qed
  then show ?thesis unfolding ds_def by (rule exI)
qed

theorem select_best_first_maximum_witness:
  "select_best \<lparr>boxes = Some [\<lparr>conf = 0.6, cls = 24\<rparr>, \<lparr>conf = 0.8, cls = 16\<rparr>,
                               \<lparr>conf = 0.8, cls = 0\<rparr>, \<lparr>conf = 0.3, cls = 5\<rparr>],
                 names = None\<rparr>
     = Inr (Some \<lparr>component = ''bolt'', confidence = 0.8, class_name = ''bolt_rust''\<rparr>)
   \<and> candidates None [\<lparr>conf = 0.6, cls = 24\<rparr>, \<lparr>conf = 0.8, cls = 16\<rparr>,
                         \<lparr>conf = 0.8, cls = 0\<rparr>, \<lparr>conf = 0.3, cls = 5\<rparr>]
     = [\<lparr>component = ''bolt'', confidence = 0.8, class_name = ''bolt_rust''\<rparr>,
        \<lparr>component = ''clip'', confidence = 0.8, class_name = ''clip_ok''\<rparr>,
        \<lparr>component = ''erc'', confidence = 0.3, class_name = ''erc_ok''\<rparr>]"
proof -
  define bs where "bs = [\<lparr>conf = 0.6, cls = 24\<rparr>, \<lparr>conf = 0.8, cls = 16\<rparr>,
                         \<lparr>conf = 0.8, cls = 0\<rparr>, \<lparr>conf = (0.3::real), cls = 5\<rparr>]"
  define r where "r = \<lparr>boxes = Some bs, names = None\<rparr>"
  have b: "boxes r = Some bs" by (simp add: r_def)
  have v: "\<forall>b \<in> set bs. 0 \<le> cls b \<and> - 1 < conf b" by (simp add: bs_def)
  have cs: "candidates (names r) bs
     = [\<lparr>component = ''bolt'', confidence = 0.8, class_name = ''bolt_rust''\<rparr>,
        \<lparr>component = ''clip'', confidence = 0.8, class_name = ''clip_ok''\<rparr>,
        \<lparr>component = ''erc'', confidence = 0.3, class_name = ''erc_ok''\<rparr>]"
    by (simp add: r_def bs_def candidate_def spec_label_def
          static_label_def CLASS_NAMES_def parse_component_def lower_def lower_char_def
          COMPONENTS_def)
  from select_best_first_maximum [OF b v] obtain res where
    res: "select_best r = Inr res"
      "res = None \<longleftrightarrow> (\<forall>b \<in> set bs. parse_component (Some (spec_label (names r) (cls b))) = None)"
      "\<forall>d. res = Some d \<longrightarrow>
          confidence d = Max (set (map confidence (candidates (names r) bs)))
          \<and> (\<exists>i < length (candidates (names r) bs).
                 candidates (names r) bs ! i = d
                 \<and> (\<forall>j < i. confidence (candidates (names r) bs ! j) < confidence d))"
    by blast
  have "res \<noteq> None"
    unfolding res(2)
    by (simp add: r_def bs_def spec_label_def static_label_def CLASS_NAMES_def
          parse_component_def lower_def lower_char_def COMPONENTS_def)
  then obtain d where d: "res = Some d" by blast
  with res(3) obtain i where i: "i < length (candidates (names r) bs)"
      "candidates (names r) bs ! i = d"
      "\<forall>j < i. confidence (candidates (names r) bs ! j) < confidence d"
      "confidence d = Max (set (map confidence (candidates (names r) bs)))"
    by blast
  have mx: "confidence d = 0.8" using i(4) unfolding cs by simp
  have "i = 0"
  proof (rule ccontr)
    assume "i \<noteq> 0"
    then have "0 < i" by simp
    with i(3) have "confidence (candidates (names r) bs ! 0) < confidence d" by blast
    then show False unfolding cs mx by simp
  qed
  with i(2) have "d = \<lparr>component = ''bolt'', confidence = 0.8, class_name = ''bolt_rust''\<rparr>"
    unfolding cs by simp
  with res(1) d cs show ?thesis by (simp add: r_def bs_def)
qed


text \<open>
  Claim C7.  For a detection with a non-negative class id, the label is the entry of the
  model's label map when the map exists and has the id, otherwise the entry of
  \<open>CLASS_NAMES\<close> at the id when the id is below its length, otherwise the id printed in
  decimal; and one pass of the loop body consults the Matcher on this label only, the
  label being recorded in the detection it may store.
\<close>

theorem resolve_class_name_precedence:
  assumes "0 \<le> cls b"
  shows "resolve_class_name r_names (cls b) = Inr (spec_label r_names (cls b))
   \<and> run_pt_inference_loop r_names best best_conf (b # bs) =
       (case parse_component (Some (spec_label r_names (cls b))) of
          None \<Rightarrow> run_pt_inference_loop r_names best best_conf bs
        | Some c \<Rightarrow>
            if conf b > best_conf
            then run_pt_inference_loop r_names
                   (Some \<lparr>component = c, confidence = conf b,
                          class_name = spec_label r_names (cls b)\<rparr>) (conf b) bs
            else run_pt_inference_loop r_names best best_conf bs)"
  using assms by (simp add: resolve_class_name_nonneg)

theorem resolve_class_name_precedence_witness:
  "spec_label (Some [16 \<mapsto> ''Sleeper_X'']) 16 = ''Sleeper_X''
   \<and> resolve_class_name (Some [16 \<mapsto> ''Sleeper_X'']) 16 = Inr ''Sleeper_X''
   \<and> run_pt_inference_loop (Some [16 \<mapsto> ''Sleeper_X'']) None (- 1) [\<lparr>conf = 0.5, cls = 16\<rparr>]
       = Inr (Some \<lparr>component = ''sleeper'', confidence = 0.5, class_name = ''Sleeper_X''\<rparr>)
   \<and> spec_label (Some [16 \<mapsto> ''Sleeper_X'']) 4 = ''bolt_ok''
   \<and> resolve_class_name (Some [16 \<mapsto> ''Sleeper_X'']) 4 = Inr ''bolt_ok''
   \<and> spec_label None 31 = ''31''
   \<and> resolve_class_name None 31 = Inr ''31''"
proof -
  define nm :: "(int \<rightharpoonup> string) option" where "nm = Some [16 \<mapsto> ''Sleeper_X'']"
  have l1: "spec_label nm 16 = ''Sleeper_X''"
    by (simp add: nm_def spec_label_def)
  have l2: "spec_label nm 4 = ''bolt_ok''"
    by (simp add: nm_def spec_label_def static_label_def CLASS_NAMES_def)
  have l3: "spec_label None 31 = ''31''"
    by (simp add: spec_label_def static_label_def CLASS_NAMES_def str_int_def str_nat.simps
          digit_char_def)
  have p1: "parse_component (Some ''Sleeper_X'') = Some ''sleeper''"
    by (simp add: parse_component_def lower_def lower_char_def COMPONENTS_def)
  have h1: "0 \<le> cls \<lparr>conf = 0.5, cls = 16\<rparr>" by simp
  have h2: "0 \<le> cls \<lparr>conf = 0.5, cls = 4\<rparr>" by simp
  have h3: "0 \<le> cls \<lparr>conf = 0.5, cls = 31\<rparr>" by simp
  have r1: "resolve_class_name nm 16 = Inr ''Sleeper_X''"
    and s1: "run_pt_inference_loop nm None (- 1) [\<lparr>conf = 0.5, cls = 16\<rparr>]
       = Inr (Some \<lparr>component = ''sleeper'', confidence = 0.5, class_name = ''Sleeper_X''\<rparr>)"
    using resolve_class_name_precedence [OF h1, of nm None "- 1" "[]"] l1 p1 by simp_all
  have r2: "resolve_class_name nm 4 = Inr ''bolt_ok''"
    using resolve_class_name_precedence [OF h2, of nm None "- 1" "[]"] l2 by simp
  have r3: "resolve_class_name None 31 = Inr ''31''"
    using resolve_class_name_precedence [OF h3, of None None "- 1" "[]"] l3 by simp
  from l1 r1 s1 l2 r2 l3 r3 show ?thesis unfolding nm_def by simp
qed



section \<open>Properties of the Adapter and the handlers\<close>

lemma new_dict_then_setitem:
  "setitem (length h) k v (h @ [d]) = h @ [d(k \<mapsto> v)]"
  by (simp add: setitem_def)

lemma save_result_to_firestore_cases:
  "save_result_to_firestore env result_json material_id source h st =
     (case db_fs env of
        None \<Rightarrow> Inr (None, h, st)
      | Some db \<Rightarrow>
          (case document db (FIRESTORE_COLLECTION env) st of
             Inl e \<Rightarrow> Inl e
           | Inr (ref_id, st1) \<Rightarrow>
               (case set_document db (FIRESTORE_COLLECTION env) ref_id
                       (stored_doc env (h ! result_json) material_id source ref_id) st1 of
                  Inl e \<Rightarrow> Inl e
                | Inr st2 \<Rightarrow>
                    Inr (Some ref_id,
                         h @ [stored_doc env (h ! result_json) material_id source ref_id],
                         st2))))"
  by (simp add: save_result_to_firestore_def new_dict_def new_dict_then_setitem stored_doc_def
        split: option.splits sum.splits prod.splits)

lemma save_result_to_firestore_frame:
  assumes "save_result_to_firestore env result_json material_id source h st = Inr (doc_id, h', st')"
  shows "length h \<le> length h' \<and> (\<forall>a < length h. h' ! a = h ! a)"
  using assms unfolding save_result_to_firestore_cases
  by (auto simp: nth_append split: option.splits sum.splits prod.splits)

lemma verdict_builder_eqs:
  "verify_web_result_json det = verdict_builder det"
  "api_verify_result_json det = verdict_builder det"
  by (simp_all add: verify_web_result_json_def api_verify_result_json_def verdict_builder_def
        VerificationResult_def opt_str_def split: option.splits)

lemma verdict_builder_fields:
  "verdict_builder det ''ok'' = Some (PyBool True)"
  "verdict_builder det ''status'' = Some (PyStr (case det of None \<Rightarrow> ''not_detected'' | Some d \<Rightarrow> ''verified''))"
  "verdict_builder det ''component'' = Some (case det of None \<Rightarrow> PyNone | Some d \<Rightarrow> PyStr (component d))"
  "verdict_builder det ''confidence'' = Some (PyFloat (case det of None \<Rightarrow> 0 | Some d \<Rightarrow> confidence d))"
  by (simp_all add: verdict_builder_def VerificationResult_def opt_str_def split: option.splits)

lemma dom_verdict_builder: "dom (verdict_builder det) = set RESULT_FIELDS"
  by (auto simp: verdict_builder_def VerificationResult_def RESULT_FIELDS_def split: option.splits)

lemma verify_web_reaches_adapter:
  assumes "files req ''image'' = Some f" and "filename f \<noteq> []"
    and "imdecode env (stream f) = Inr (Some img)"
    and "run_pt_inference env img = Inr det"
  shows "verify_web env req h st =
     (case save_result_to_firestore env (length h) (form_get req ''materialId'') ''verify_web''
             (h @ [verdict_builder det]) st of
        Inl e \<Rightarrow> Inl e
      | Inr (doc_id, h2, st2) \<Rightarrow>
          if form_get req ''callback'' \<noteq> []
          then (case verify_web_redirect (form_get req ''callback'') (form_get req ''materialId'')
                       (length h) doc_id h2 of
                  Inl e \<Rightarrow> Inl e
                | Inr resp \<Rightarrow> Inr (resp, h2, st2))
          else Inr (Json ((h2 ! length h)(''docId'' \<mapsto> opt_str doc_id)) 200,
                    setitem (length h) ''docId'' (opt_str doc_id) h2, st2))"
proof -
  have len: "length h2 > length h" if "save_result_to_firestore env (length h) m s (h @ [d]) st = Inr (doc_id, h2, st2)"
    for m s d doc_id h2 st2
    using save_result_to_firestore_frame [OF that] by simp
  show ?thesis
    using assms
    by (auto simp: verify_web_def not_file_def new_dict_def verdict_builder_eqs setitem_def Let_def
          dest: len split: sum.splits prod.splits)
qed


lemma save_keeps_result:
  assumes "save_result_to_firestore env (length h) m s (h @ [d]) st = Inr (doc_id, h2, st2)"
  shows "h2 ! length h = d"
  using save_result_to_firestore_frame [OF assms] by (auto simp: nth_append)


text \<open>The query string of the redirect for a given verdict.\<close>

lemma verify_web_query_verdict:
  assumes "h ! a = verdict_builder det"
  shows "verify_web_query material_id a doc_id h =
     Inr [(''id'', PyStr material_id),
          (''aiStatus'', PyStr (case det of None \<Rightarrow> ''not_detected'' | Some d \<Rightarrow> ''verified'')),
          (''aiComponent'', PyStr (case det of None \<Rightarrow> [] | Some d \<Rightarrow> component d)),
          (''aiConfidence'', PyStr (format_6f (case det of None \<Rightarrow> 0 | Some d \<Rightarrow> confidence d))),
          (''aiDocId'', PyStr (or_empty doc_id))]"
  using assms
  by (cases det)
     (simp_all add: verify_web_query_def getitem_def verdict_builder_fields py_or_empty_def)

lemma quote_plus_keys:
  "quote_plus ''id'' = ''id''" "quote_plus ''aiStatus'' = ''aiStatus''"
  "quote_plus ''aiComponent'' = ''aiComponent''" "quote_plus ''aiConfidence'' = ''aiConfidence''"
  "quote_plus ''aiDocId'' = ''aiDocId''"
  by (simp_all add: quote_plus_def quote_plus_char_def ALWAYS_SAFE_def)

lemma urlencode_strings:
  "urlencode [(k1, PyStr v1), (k2, PyStr v2), (k3, PyStr v3), (k4, PyStr v4), (k5, PyStr v5)] =
     Inr (quote_plus k1 @ ''='' @ quote_plus v1 @ ''&'' @ quote_plus k2 @ ''='' @ quote_plus v2
          @ ''&'' @ quote_plus k3 @ ''='' @ quote_plus v3 @ ''&'' @ quote_plus k4 @ ''=''
          @ quote_plus v4 @ ''&'' @ quote_plus k5 @ ''='' @ quote_plus v5)"
  by (simp add: urlencode_def)

lemma verify_web_redirect_verdict:
  assumes "h ! a = verdict_builder det"
  shows "verify_web_redirect callback material_id a doc_id h =
     Inr (Redirect (redirect_url callback material_id det doc_id))"
  by (simp add: verify_web_redirect_def verify_web_query_verdict [OF assms] urlencode_strings
        quote_plus_keys redirect_url_def)

lemma verify_web_after_save:
  assumes "files req ''image'' = Some f" and "filename f \<noteq> []"
    and "imdecode env (stream f) = Inr (Some img)"
    and "run_pt_inference env img = Inr det"
    and "save_result_to_firestore env (length h) (form_get req ''materialId'') ''verify_web''
           (h @ [verdict_builder det]) st = Inr (doc_id, h2, st2)"
  shows "verify_web env req h st =
     (if form_get req ''callback'' \<noteq> []
      then Inr (Redirect (redirect_url (form_get req ''callback'') (form_get req ''materialId'')
                            det doc_id), h2, st2)
      else Inr (Json ((verdict_builder det)(''docId'' \<mapsto> opt_str doc_id)) 200,
                setitem (length h) ''docId'' (opt_str doc_id) h2, st2))"
proof -
  have keep: "h2 ! length h = verdict_builder det"
    by (rule save_keeps_result [OF assms(5)])
  show ?thesis
    unfolding verify_web_reaches_adapter [OF assms(1-4)] assms(5)
    by (simp add: keep verify_web_redirect_verdict [OF keep])
qed


lemma stored_doc_keeps:
  "k \<notin> set PROVENANCE_FIELDS \<Longrightarrow> k \<noteq> ''id'' \<Longrightarrow>
   stored_doc env result material_id source ref_id k = result k"
  by (simp add: stored_doc_def PROVENANCE_FIELDS_def)

lemma dom_stored_doc:
  "dom (stored_doc env result material_id source ref_id) =
     dom result \<union> set PROVENANCE_FIELDS \<union> {''id''}"
  by (auto simp: stored_doc_def PROVENANCE_FIELDS_def)

lemma stored_doc_added:
  "stored_doc env result material_id source ref_id ''materialId'' = Some (str_or_None material_id)"
  "stored_doc env result material_id source ref_id ''source'' = Some (str_or_None source)"
  "stored_doc env result material_id source ref_id ''threshold'' = Some (PyFloat (CONF_THRESHOLD env))"
  "stored_doc env result material_id source ref_id ''model'' = Some (PyStr (basename (PT_MODEL_PATH env)))"
  "stored_doc env result material_id source ref_id ''createdAt'' = Some SERVER_TIMESTAMP"
  "stored_doc env result material_id source ref_id ''id'' = Some (PyStr ref_id)"
  by (simp_all add: stored_doc_def)

lemma result_fields_not_added:
  "k \<in> set RESULT_FIELDS \<Longrightarrow> k \<notin> set PROVENANCE_FIELDS \<and> k \<noteq> ''id''"
  by (auto simp: RESULT_FIELDS_def PROVENANCE_FIELDS_def)


lemma verify_web_redirect_after_save:
  assumes "files req ''image'' = Some f" and "filename f \<noteq> []"
    and "imdecode env (stream f) = Inr (Some img)"
    and "run_pt_inference env img = Inr det"
    and "save_result_to_firestore env (length h) (form_get req ''materialId'') ''verify_web''
           (h @ [verdict_builder det]) st = Inr (doc_id, h2, st2)"
    and "form_get req ''callback'' \<noteq> []"
  shows "\<exists>query q.
       verify_web_query (form_get req ''materialId'') (length h) doc_id h2 = Inr query
       \<and> urlencode query = Inr q
       \<and> verify_web env req h st = Inr (Redirect (form_get req ''callback'' @ ''?'' @ q), h2, st2)
       \<and> map fst query = [''id'', ''aiStatus'', ''aiComponent'', ''aiConfidence'', ''aiDocId'']"
proof -
  have keep: "h2 ! length h = verdict_builder det"
    by (rule save_keeps_result [OF assms(5)])
  note qv = verify_web_query_verdict [OF keep, of "form_get req ''materialId''" doc_id]
  have u: "\<exists>q. urlencode [(''id'', PyStr (form_get req ''materialId'')),
          (''aiStatus'', PyStr (case det of None \<Rightarrow> ''not_detected'' | Some d \<Rightarrow> ''verified'')),
          (''aiComponent'', PyStr (case det of None \<Rightarrow> [] | Some d \<Rightarrow> component d)),
          (''aiConfidence'', PyStr (format_6f (case det of None \<Rightarrow> 0 | Some d \<Rightarrow> confidence d))),
          (''aiDocId'', PyStr (or_empty doc_id))] = Inr q"
    by (simp add: urlencode_strings)
  then obtain q where q: "urlencode [(''id'', PyStr (form_get req ''materialId'')),
          (''aiStatus'', PyStr (case det of None \<Rightarrow> ''not_detected'' | Some d \<Rightarrow> ''verified'')),
          (''aiComponent'', PyStr (case det of None \<Rightarrow> [] | Some d \<Rightarrow> component d)),
          (''aiConfidence'', PyStr (format_6f (case det of None \<Rightarrow> 0 | Some d \<Rightarrow> confidence d))),
          (''aiDocId'', PyStr (or_empty doc_id))] = Inr q" ..
  have v: "verify_web env req h st = Inr (Redirect (form_get req ''callback'' @ ''?'' @ q), h2, st2)"
    unfolding verify_web_reaches_adapter [OF assms(1-4)] assms(5)
    using assms(6) by (simp add: verify_web_redirect_def qv q)
  from qv q v show ?thesis by simp
qed

section \<open>Properties of the redirect's encoding\<close>

subsection \<open>Encoding and decoding\<close>

lemma hex_digit_mem: "hex_digit n \<in> set ''0123456789ABCDEF''"
  unfolding hex_digit_def by (rule nth_mem) simp

lemma hex_digit_table:
  "list_all (\<lambda>n. hex_value (hex_digit n) = Some n) [0..<16]"
  by code_simp

lemma hex_value_hex_digit: "n < 16 \<Longrightarrow> hex_value (hex_digit n) = Some n"
proof -
  assume "n < 16"
  then have "n \<in> set [0..<16]" by simp
  with hex_digit_table show ?thesis unfolding list_all_iff by blast
qed

lemma unquote_plus_quote_plus_char:
  "unquote_plus (quote_plus_char c @ t) = c # unquote_plus t"
proof -
  consider (space) "c = CHR '' ''"
    | (safe) "c \<noteq> CHR '' ''" "c \<in> set ALWAYS_SAFE"
    | (other) "c \<noteq> CHR '' ''" "c \<notin> set ALWAYS_SAFE"
    by blast
  then show ?thesis
  proof cases
    case space
    then show ?thesis by (simp add: quote_plus_char_def)
  next
    case safe
    from safe(2) have "c \<noteq> CHR ''+''" "c \<noteq> CHR ''%''"
      by (auto simp: ALWAYS_SAFE_def)
    with safe show ?thesis by (simp add: quote_plus_char_def)
  next
    case other
    let ?n = "of_char c :: nat"
    have hi: "?n div 16 < 16"
      using nat_of_char_less_256 [of c] by (simp add: less_mult_imp_div_less)
    have lo: "?n mod 16 < 16" by simp
    have recon: "char_of (16 * (?n div 16) + ?n mod 16) = c" by simp
    from other show ?thesis
      by (simp add: quote_plus_char_def hex_value_hex_digit [OF hi] hex_value_hex_digit [OF lo]
            recon)
  qed
qed

lemma unquote_plus_quote_plus: "unquote_plus (quote_plus s) = s"
  by (induction s) (simp_all add: quote_plus_def unquote_plus_quote_plus_char)

lemma separator_not_safe: "x \<in> set ''&=#?'' \<Longrightarrow> x \<notin> set ALWAYS_SAFE"
  by (auto simp: ALWAYS_SAFE_def)

lemma separator_not_hex_digit: "x \<in> set ''&=#?'' \<Longrightarrow> hex_digit n \<noteq> x"
  using hex_digit_mem [of n] by auto

lemma quote_plus_char_no_separator:
  assumes "x \<in> set ''&=#?''"
  shows "x \<notin> set (quote_plus_char c)"
proof -
  consider (space) "c = CHR '' ''"
    | (safe) "c \<noteq> CHR '' ''" "c \<in> set ALWAYS_SAFE"
    | (other) "c \<noteq> CHR '' ''" "c \<notin> set ALWAYS_SAFE"
    by blast
  then show ?thesis
  proof cases
    case space
    with assms show ?thesis by (auto simp: quote_plus_char_def)
  next
    case safe
    from separator_not_safe [OF assms] safe(2) have "x \<noteq> c" by blast
    with safe show ?thesis by (simp add: quote_plus_char_def)
  next
    case other
    have "x \<noteq> CHR ''%''" using assms by auto
    with other separator_not_hex_digit [OF assms] show ?thesis
      by (auto simp: quote_plus_char_def)
  qed
qed

lemma quote_plus_no_separator_gen:
  "x \<in> set ''&=#?'' \<Longrightarrow> x \<notin> set (quote_plus s)"
  by (induction s) (simp_all add: quote_plus_def quote_plus_char_no_separator)

lemma quote_plus_no_separator:
  "CHR ''&'' \<notin> set (quote_plus s)" "CHR ''='' \<notin> set (quote_plus s)"
  "CHR ''#'' \<notin> set (quote_plus s)" "CHR ''?'' \<notin> set (quote_plus s)"
  by (rule quote_plus_no_separator_gen, simp)+

subsection \<open>Splitting\<close>

lemma split_on_no_separator: "sep \<notin> set a \<Longrightarrow> split_on sep a = [a]"
  by (induction a) auto

lemma split_on_append:
  "sep \<notin> set a \<Longrightarrow> split_on sep (a @ sep # rest) = a # split_on sep rest"
  by (induction a) auto

lemma before_first_append: "sep \<notin> set a \<Longrightarrow> before_first sep (a @ sep # rest) = a"
  by (induction a) (auto simp: before_first_def)

lemma after_first_append: "sep \<notin> set a \<Longrightarrow> after_first sep (a @ sep # rest) = rest"
  by (induction a) (auto simp: after_first_def)

lemma before_first_none: "sep \<notin> set a \<Longrightarrow> before_first sep a = a"
  by (induction a) (auto simp: before_first_def)

lemma encoded_piece_props:
  "encoded_piece kv \<noteq> []" "CHR ''&'' \<notin> set (encoded_piece kv)"
  "CHR ''#'' \<notin> set (encoded_piece kv)"
  "before_first CHR ''='' (encoded_piece kv) = quote_plus (fst kv)"
  "after_first CHR ''='' (encoded_piece kv) = quote_plus (snd kv)"
  using quote_plus_no_separator [of "fst kv"] quote_plus_no_separator [of "snd kv"]
  by (simp_all add: encoded_piece_def before_first_append after_first_append)

lemma split_on_join:
  "ps \<noteq> [] \<Longrightarrow> \<forall>p \<in> set ps. sep \<notin> set p \<Longrightarrow> split_on sep (join [sep] ps) = ps"
proof (induction "[sep]" ps rule: join.induct)
  case 1
  then show ?case by simp
next
  case (2 x)
  then show ?case by (simp add: split_on_no_separator)
next
  case (3 x y ys)
  then show ?case by (simp add: split_on_append)
qed

lemma urlencode_items_strings:
  "urlencode_items (map (\<lambda>kv. (fst kv, PyStr (snd kv))) kvs) = Inr (map encoded_piece kvs)"
  by (induction kvs) (simp_all add: encoded_piece_def split: prod.splits)

lemma urlencode_strings_join:
  "urlencode (map (\<lambda>kv. (fst kv, PyStr (snd kv))) kvs) = Inr (join ''&'' (map encoded_piece kvs))"
  by (simp add: urlencode_def urlencode_items_strings)

lemma parse_qsl_join: "parse_qsl (join ''&'' (map encoded_piece kvs)) = kvs"
proof (cases kvs)
  case Nil
  then show ?thesis by (simp add: parse_qsl_def)
next
  case (Cons kv rest)
  let ?ps = "map encoded_piece kvs"
  have ne: "?ps \<noteq> []" using Cons by simp
  have nosep: "\<forall>p \<in> set ?ps. CHR ''&'' \<notin> set p"
    by (auto simp: encoded_piece_props)
  have sp: "split_on CHR ''&'' (join ''&'' ?ps) = ?ps"
    by (rule split_on_join [OF ne nosep])
  have nonempty: "filter (\<lambda>piece. piece \<noteq> []) ?ps = ?ps"
    by (simp add: filter_id_conv encoded_piece_props)
  show ?thesis
    unfolding parse_qsl_def sp nonempty
    by (simp add: encoded_piece_props unquote_plus_quote_plus map_idI cong: map_cong)
qed

lemma join_no_hash:
  "\<forall>p \<in> set ps. CHR ''#'' \<notin> set p \<Longrightarrow> CHR ''#'' \<notin> set (join ''&'' ps)"
  by (induction "''&''" ps rule: join.induct) auto

lemma url_query_appended:
  assumes "CHR ''?'' \<notin> set callback" and "CHR ''#'' \<notin> set callback"
  shows "url_query (callback @ ''?'' @ join ''&'' (map encoded_piece kvs))
     = join ''&'' (map encoded_piece kvs)"
proof -
  let ?q = "join ''&'' (map encoded_piece kvs)"
  have "CHR ''#'' \<notin> set ?q"
    by (rule join_no_hash) (auto simp: encoded_piece_props)
  with assms(2) have "CHR ''#'' \<notin> set (callback @ ''?'' @ ?q)" by simp
  then have "before_first CHR ''#'' (callback @ ''?'' @ ?q) = callback @ ''?'' @ ?q"
    by (rule before_first_none)
  then show ?thesis
    using assms(1) by (simp add: url_query_def after_first_append)
qed

subsection \<open>Six decimal places\<close>

lemma digit_char_table:
  "list_all (\<lambda>d. is_digit (digit_char d) \<and> digit_value (digit_char d) = d
              \<and> digit_char d \<noteq> CHR ''.'') [0..<10]"
  by code_simp

lemma digit_char_props:
  "is_digit (digit_char d)" "digit_value (digit_char d) = d mod 10"
  "digit_char d \<noteq> CHR ''.''"
proof -
  have same: "digit_char d = digit_char (d mod 10)" by (simp add: digit_char_def)
  have "d mod 10 \<in> set [0..<10]" by simp
  with digit_char_table have "is_digit (digit_char (d mod 10))
      \<and> digit_value (digit_char (d mod 10)) = d mod 10 \<and> digit_char (d mod 10) \<noteq> CHR ''.''"
    unfolding list_all_iff by blast
  then show "is_digit (digit_char d)" "digit_value (digit_char d) = d mod 10"
    "digit_char d \<noteq> CHR ''.''"
    unfolding same [symmetric] by simp_all
qed

lemma digits_value_snoc: "digits_value (s @ [c]) = 10 * digits_value s + digit_value c"
  by (simp add: digits_value_def)

lemma str_nat_props:
  "str_nat n \<noteq> [] \<and> list_all is_digit (str_nat n) \<and> digits_value (str_nat n) = n
   \<and> CHR ''.'' \<notin> set (str_nat n)"
proof (induction n rule: str_nat.induct)
  case (1 n)
  show ?case
  proof (cases "n < 10")
    case True
    then have "str_nat n = [digit_char n]" by (simp add: str_nat.simps [of n])
    with True digit_char_props [of n] show ?thesis
      by (simp add: digits_value_def)
  next
    case False
    then have e: "str_nat n = str_nat (n div 10) @ [digit_char (n mod 10)]"
      by (simp add: str_nat.simps [of n])
    from False 1 have ih: "list_all is_digit (str_nat (n div 10))"
      "digits_value (str_nat (n div 10)) = n div 10" "CHR ''.'' \<notin> set (str_nat (n div 10))"
      by simp_all
    show ?thesis
      unfolding e using ih digit_char_props [of "n mod 10"]
      by (simp add: digits_value_snoc)
  qed
qed

lemma length_str_nat: "0 < k \<Longrightarrow> n < 10 ^ k \<Longrightarrow> length (str_nat n) \<le> k"
proof (induction n arbitrary: k rule: str_nat.induct)
  case (1 n)
  show ?case
  proof (cases "n < 10")
    case True
    then have "str_nat n = [digit_char n]" by (simp add: str_nat.simps [of n])
    with "1.prems"(1) show ?thesis by simp
  next
    case False
    then have e: "str_nat n = str_nat (n div 10) @ [digit_char (n mod 10)]"
      by (simp add: str_nat.simps [of n])
    obtain j where k: "k = Suc j" using "1.prems"(1) by (cases k) auto
    have "j \<noteq> 0"
    proof
      assume "j = 0"
      with k "1.prems"(2) have "n < 10" by simp
      with False show False by simp
    qed
    then have j: "0 < j" by simp
    from "1.prems"(2) k have "n div 10 < 10 ^ j"
      by (simp add: less_mult_imp_div_less mult.commute)
    from "1.IH" [OF False j this] have "length (str_nat (n div 10)) \<le> j" .
    then show ?thesis unfolding e k by simp
  qed
qed

lemma zfill_props:
  assumes "length s \<le> w" and "list_all is_digit s"
  shows "length (zfill w s) = w" "list_all is_digit (zfill w s)"
    "digits_value (zfill w s) = digits_value s"
proof -
  show "length (zfill w s) = w" using assms(1) by (simp add: zfill_def)
  have z: "is_digit CHR ''0''" by (simp add: is_digit_def)
  show "list_all is_digit (zfill w s)"
    using assms(2) z by (auto simp: zfill_def list_all_iff)
  have "foldl (\<lambda>acc c. 10 * acc + digit_value c) 0 (replicate k CHR ''0'') = 0" for k
    by (induction k) (simp_all add: digit_value_def)
  then show "digits_value (zfill w s) = digits_value s"
    by (simp add: zfill_def digits_value_def)
qed

lemma round_half_even_near: "\<bar>real_of_int (round_half_even y) - y\<bar> \<le> 1 / 2"
proof -
  have "real_of_int \<lfloor>y\<rfloor> \<le> y" "y < real_of_int \<lfloor>y\<rfloor> + 1" by linarith+
  then show ?thesis
    unfolding round_half_even_def Let_def by (auto simp: abs_le_iff)
qed

lemma round_half_even_nonneg: "0 \<le> y \<Longrightarrow> 0 \<le> round_half_even y"
  unfolding round_half_even_def Let_def by auto


lemma format_6f_six_places: "six_place_decimal (format_6f x) x"
proof -
  define n where "n = nat (round_half_even (\<bar>x\<bar> * 1000000))"
  define whole where "whole = str_nat (n div 1000000)"
  define places where "places = zfill 6 (str_nat (n mod 1000000))"
  have fmt: "format_6f x = (if x < 0 then ''-'' else []) @ whole @ ''.'' @ places"
    by (simp add: format_6f_def Let_def n_def whole_def places_def)
  have w: "whole \<noteq> []" "list_all is_digit whole" "digits_value whole = n div 1000000"
      "CHR ''.'' \<notin> set whole"
    using str_nat_props [of "n div 1000000"] by (simp_all add: whole_def)
  have "n mod 1000000 < 10 ^ 6" by simp
  then have len: "length (str_nat (n mod 1000000)) \<le> 6"
    by (intro length_str_nat) simp_all
  have p: "length places = 6" "list_all is_digit places" "digits_value places = n mod 1000000"
    using zfill_props [OF len] str_nat_props [of "n mod 1000000"] by (simp_all add: places_def)
  have first: "whole \<noteq> [] \<Longrightarrow> take 1 (whole @ t) \<noteq> ''-''" for t
  proof -
    assume "whole \<noteq> []"
    then obtain c cs where c: "whole = c # cs" by (cases whole) auto
    with w(2) have "is_digit c" by simp
    then have "c \<noteq> CHR ''-''" by (auto simp: is_digit_def)
    with c show ?thesis by simp
  qed
  have body: "(if x < 0 then drop 1 (format_6f x) else format_6f x) = whole @ ''.'' @ places"
    by (simp add: fmt)
  have sign: "(x < 0) = (take 1 (format_6f x) = ''-'')"
    using first [OF w(1)] by (simp add: fmt)
  have bf: "before_first CHR ''.'' (whole @ ''.'' @ places) = whole"
    using w(4) by (induction whole) (auto simp: before_first_def)
  have af: "after_first CHR ''.'' (whole @ ''.'' @ places) = places"
    using w(4) by (induction whole) (auto simp: after_first_def)
  have nn: "0 \<le> round_half_even (\<bar>x\<bar> * 1000000)"
    by (rule round_half_even_nonneg) simp
  have split: "real (n div 1000000) + real (n mod 1000000) / 1000000 = real n / 1000000"
  proof -
    have "real n = real (1000000 * (n div 1000000) + n mod 1000000)" by simp
    also have "\<dots> = 1000000 * real (n div 1000000) + real (n mod 1000000)"
      by (simp only: of_nat_add of_nat_mult of_nat_numeral)
    finally show ?thesis by (simp add: field_simps)
  qed
  have "\<bar>real n - \<bar>x\<bar> * 1000000\<bar> \<le> 1 / 2"
    using round_half_even_near [of "\<bar>x\<bar> * 1000000"] nn by (simp add: n_def)
  then have near: "\<bar>real n / 1000000 - \<bar>x\<bar>\<bar> \<le> 1 / 2000000"
    by (simp add: abs_le_iff field_simps)
  show ?thesis
    unfolding six_place_decimal_def Let_def body bf af
    using sign w(1,2) p near by (simp add: w(3) split)
qed

lemma redirect_url_encoded:
  "redirect_url callback material_id det doc_id =
     callback @ ''?'' @ join ''&'' (map encoded_piece
        (redirect_params material_id det (format_6f (verdict_confidence det)) doc_id))"
  by (cases doc_id)
     (simp_all add: redirect_url_def redirect_params_def verdict_confidence_def encoded_piece_def
        quote_plus_keys)

lemma redirect_url_params:
  assumes "CHR ''?'' \<notin> set callback" and "CHR ''#'' \<notin> set callback"
  shows "url_params (redirect_url callback material_id det doc_id) =
     redirect_params material_id det (format_6f (verdict_confidence det)) doc_id"
  unfolding url_params_def redirect_url_encoded url_query_appended [OF assms]
  by (rule parse_qsl_join)




section \<open>Worked examples\<close>

text \<open>Concrete runs of the example collaborators.\<close>

lemma demo_request_fields:
  "files (demo_request cb up) = up"
  "http_method (demo_request cb up) = ''POST''"
  "form_get (demo_request cb up) ''callback'' = cb"
  "form_get (demo_request cb up) ''materialId'' = ''M 1''"
  by (simp_all add: demo_request_def form_get_def)

lemma demo_upload_image:
  "demo_upload ''image'' = Some \<lparr>filename = ''a.jpg'', stream = ''JFIF''\<rparr>"
  by (simp add: demo_upload_def)

lemma demo_imdecode: "imdecode (demo_env db) ''JFIF'' = Inr (Some ''JFIF'')"
  by (simp add: demo_env_def)

lemma demo_inference: "run_pt_inference (demo_env db) img = Inr (Some demo_detection)"
  by (simp add: run_pt_inference_def demo_env_def py_index_def select_best_def demo_boxes_def
        resolve_class_name_def CLASS_NAMES_def parse_component_def lower_def lower_char_def
        COMPONENTS_def demo_detection_def)

lemma demo_save:
  "save_result_to_firestore (demo_env (Some demo_store)) 0 mid src [d] [] =
     Inr (Some ''doc0'',
          [d, stored_doc (demo_env (Some demo_store)) d mid src ''doc0''],
          [(''ai_verifications'', ''doc0'',
            stored_doc (demo_env (Some demo_store)) d mid src ''doc0'')])"
  by (simp add: save_result_to_firestore_cases demo_env_def demo_store_def str_nat.simps
        digit_char_def)


lemma demo_save_unconfigured:
  "save_result_to_firestore (demo_env None) a mid src h st = Inr (None, h, st)"
  by (simp add: save_result_to_firestore_cases demo_env_def)

lemma format_6f_demo: "format_6f 0.81 = ''0.810000''"
proof -
  have "nat (round_half_even (\<bar>0.81\<bar> * 1000000)) = 810000"
    by (simp add: round_half_even_def)
  then have "format_6f 0.81 =
      str_nat (810000 div 1000000) @ ''.'' @ zfill 6 (str_nat (810000 mod 1000000))"
    unfolding format_6f_def Let_def by simp
  then show ?thesis by (simp add: zfill_def str_nat.simps digit_char_def)
qed

lemma format_6f_demo': "format_6f (81 / 100) = ''0.810000''"
  using format_6f_demo by simp

lemma demo_redirect_url:
  "redirect_url ''http://x/cb'' ''M 1'' (Some demo_detection) (Some ''doc0'') =
     ''http://x/cb?id=M+1&aiStatus=verified&aiComponent=bolt&aiConfidence=0.810000&aiDocId=doc0''"
  by (simp add: redirect_url_def demo_detection_def format_6f_demo' quote_plus_def
        quote_plus_char_def ALWAYS_SAFE_def)

lemma format_6f_zero: "format_6f 0 = ''0.000000''"
proof -
  have r: "nat (round_half_even (\<bar>0\<bar> * 1000000)) = 0"
    by (simp add: round_half_even_def)
  have s: "str_nat 0 = ''0''"
    by (simp add: str_nat.simps [of 0] digit_char_def)
  have z: "zfill 6 ''0'' = ''000000''"
    by (simp add: zfill_def numeral_eq_Suc)
  have "format_6f 0 = str_nat 0 @ ''.'' @ zfill 6 (str_nat 0)"
    unfolding format_6f_def Let_def r by simp
  then show ?thesis unfolding s z by simp
qed

lemma blank_redirect_url:
  "redirect_url ''http://x/cb'' ''M 1'' None None =
     ''http://x/cb?id=M+1&aiStatus=not_detected&aiComponent=&aiConfidence=0.000000&aiDocId=''"
  by (simp add: redirect_url_def format_6f_zero quote_plus_def quote_plus_char_def
        ALWAYS_SAFE_def)

lemma blank_run:
  "imdecode blank_env ''JFIF'' = Inr (Some ''JFIF'')"
  "run_pt_inference blank_env img = Inr None"
  "save_result_to_firestore blank_env a mid src h st = Inr (None, h, st)"
  by (simp_all add: blank_env_def demo_env_def run_pt_inference_def py_index_def select_best_def
        save_result_to_firestore_cases)

lemma demo_confidence:
  "format_6f (verdict_confidence (Some demo_detection)) = ''0.810000''"
  "format_6f (verdict_confidence None) = ''0.000000''"
  by (simp_all add: verdict_confidence_def demo_detection_def format_6f_demo' format_6f_zero)

lemma format_6f_rounding: "format_6f (confidence rounding_detection) = ''0.350000''"
proof -
  have "nat (round_half_even (\<bar>0.3499996\<bar> * 1000000)) = 350000"
    by (simp add: round_half_even_def)
  then have "format_6f 0.3499996 =
      str_nat (350000 div 1000000) @ ''.'' @ zfill 6 (str_nat (350000 mod 1000000))"
    unfolding format_6f_def Let_def by simp
  then have "format_6f 0.3499996 = ''0.350000''"
    by (simp add: zfill_def str_nat.simps digit_char_def)
  then show ?thesis by (simp add: rounding_detection_def)
qed

lemma rounding_run:
  "files reserved_request ''image'' = Some \<lparr>filename = ''a.jpg'', stream = ''JFIF''\<rparr>"
  "form_get reserved_request ''callback'' = ''http://x/cb''"
  "form_get reserved_request ''materialId'' = ''a&b=c/d''"
  "imdecode rounding_env ''JFIF'' = Inr (Some ''JFIF'')"
  "run_pt_inference rounding_env img = Inr (Some rounding_detection)"
  by (simp_all add: reserved_request_def form_get_def demo_upload_def rounding_env_def
        demo_env_def run_pt_inference_def py_index_def select_best_def resolve_class_name_def
        CLASS_NAMES_def parse_component_def lower_def lower_char_def COMPONENTS_def
        rounding_detection_def)

lemma rounding_save:
  "save_result_to_firestore rounding_env 0 mid src [d] [] =
     Inr (Some ''doc0'', [d, stored_doc rounding_env d mid src ''doc0''],
          [(''ai_verifications'', ''doc0'', stored_doc rounding_env d mid src ''doc0'')])"
  by (simp add: save_result_to_firestore_cases rounding_env_def demo_env_def demo_store_def
        str_nat.simps digit_char_def)

lemma rounding_redirect_url:
  "redirect_url ''http://x/cb'' ''a&b=c/d'' (Some rounding_detection) (Some ''doc0'') =
     ''http://x/cb?id=a%26b%3Dc%2Fd&aiStatus=verified&aiComponent=bolt&aiConfidence=0.350000&aiDocId=doc0''"
proof -
  have c: "component rounding_detection = ''bolt''" by (simp add: rounding_detection_def)
  show ?thesis
    unfolding redirect_url_def option.case format_6f_rounding c
    by (simp add: quote_plus_def quote_plus_char_def ALWAYS_SAFE_def hex_digit_def)
qed

section \<open>Properties of the handlers\<close>

text \<open>
  Claim C4.  The dictionary literal that each of the two handlers builds from the
  selection's output is the Verdict Builder of the specification, a function defined on
  every input: \<open>None\<close> gives \<open>ok\<close> true, status \<open>not_detected\<close>, a null component
  and confidence \<open>0.0\<close>; a detection gives \<open>ok\<close> true, status \<open>verified\<close>, the
  detection's component and its confidence as it is.
\<close>

theorem verdict_builder_refined:
  "verify_web_result_json det = verdict_builder det
   \<and> api_verify_result_json det = verdict_builder det
   \<and> verdict_builder None =
       [''ok'' \<mapsto> PyBool True, ''status'' \<mapsto> PyStr ''not_detected'',
        ''component'' \<mapsto> PyNone, ''confidence'' \<mapsto> PyFloat 0]
   \<and> verdict_builder (Some d) =
       [''ok'' \<mapsto> PyBool True, ''status'' \<mapsto> PyStr ''verified'',
        ''component'' \<mapsto> PyStr (component d), ''confidence'' \<mapsto> PyFloat (confidence d)]"
  by (simp add: verdict_builder_eqs) (simp add: verdict_builder_def VerificationResult_def opt_str_def)

text \<open>
  Claim C6, as amended.  A POST request without an \<open>image\<close> field is answered with
  status 400 by both handlers, whatever the collaborators are, and the heap and the store
  are left as they were: nothing of inference, selection, the builder or the adapter is
  run.  On \<open>/api/verify\<close> the body is the JSON object with a false \<open>ok\<close> flag and the
  message \<open>image is required\<close>; on \<open>/api/verify_web\<close> the body is the plain text
  \<open>No image\<close>.
\<close>

theorem missing_image_short_circuit:
  assumes "http_method req = ''POST''" and "files req ''image'' = None"
  shows "verify_web env req h st = Inr (Text ''No image'' 400, h, st)
   \<and> api_verify env req h st =
       Inr (Json [''ok'' \<mapsto> PyBool False, ''error'' \<mapsto> PyStr ''image is required''] 400, h, st)
   \<and> json_client_error
        (Json [''ok'' \<mapsto> PyBool False, ''error'' \<mapsto> PyStr ''image is required''] 400)"
  using assms by (simp add: verify_web_def api_verify_def not_file_def json_client_error_def)

theorem missing_image_short_circuit_witness:
  "verify_web (demo_env (Some failing_store)) (demo_request ''http://x/cb'' Map.empty) [] []
     = Inr (Text ''No image'' 400, [], [])
   \<and> api_verify (demo_env (Some failing_store)) (demo_request ''http://x/cb'' Map.empty) [] []
     = Inr (Json [''ok'' \<mapsto> PyBool False, ''error'' \<mapsto> PyStr ''image is required''] 400, [], [])"
proof -
  have m: "http_method (demo_request ''http://x/cb'' Map.empty) = ''POST''"
    by (rule demo_request_fields)
  have f: "files (demo_request ''http://x/cb'' Map.empty) ''image'' = None"
    by (simp add: demo_request_fields)
  from missing_image_short_circuit [OF m f, of "demo_env (Some failing_store)" "[]" "[]"]
  show ?thesis by simp
qed

text \<open>
  The claim as stated asks for a JSON body with a false \<open>ok\<close> flag on either endpoint;
  the body of \<open>/api/verify_web\<close> is a text.
\<close>

theorem missing_image_text_body_counterexample:
  "files (demo_request [] Map.empty) ''image'' = None
   \<and> verify_web (demo_env None) (demo_request [] Map.empty) [] [] = Inr (Text ''No image'' 400, [], [])
   \<and> \<not> json_client_error (Text ''No image'' 400)"
  by (simp add: demo_request_fields verify_web_def not_file_def json_client_error_def)

text \<open>
  Claim C5, as amended.  When no store is configured, \<open>save_result_to_firestore\<close>
  returns \<open>None\<close> without raising and leaves heap and store alone.  With a configured
  store and a VerificationResult (a dictionary with the four result fields), the document
  handed to the store's write agrees with the VerificationResult on every result field,
  and its keys are the four result fields, the five provenance fields \<open>materialId\<close>,
  \<open>source\<close>, \<open>threshold\<close>, \<open>model\<close>, \<open>createdAt\<close>, and the field \<open>id\<close> holding
  the generated document identifier, and no others.
\<close>

theorem save_result_to_firestore_document:
  assumes "result_json < length h" and "dom (h ! result_json) = set RESULT_FIELDS"
  shows "(db_fs env = None \<longrightarrow>
            save_result_to_firestore env result_json material_id source h st = Inr (None, h, st))
   \<and> (\<forall>db ref_id st1.
         db_fs env = Some db \<and> document db (FIRESTORE_COLLECTION env) st = Inr (ref_id, st1) \<longrightarrow>
         (\<exists>doc.
            save_result_to_firestore env result_json material_id source h st =
              (case set_document db (FIRESTORE_COLLECTION env) ref_id doc st1 of
                 Inl e \<Rightarrow> Inl e
               | Inr st2 \<Rightarrow> Inr (Some ref_id, h @ [doc], st2))
            \<and> (\<forall>k \<in> set RESULT_FIELDS. doc k = (h ! result_json) k)
            \<and> dom doc = set RESULT_FIELDS \<union> set PROVENANCE_FIELDS \<union> {''id''}
            \<and> doc ''materialId'' = Some (str_or_None material_id)
            \<and> doc ''source'' = Some (str_or_None source)
            \<and> doc ''threshold'' = Some (PyFloat (CONF_THRESHOLD env))
            \<and> doc ''model'' = Some (PyStr (basename (PT_MODEL_PATH env)))
            \<and> doc ''createdAt'' = Some SERVER_TIMESTAMP
            \<and> doc ''id'' = Some (PyStr ref_id)))"
proof (intro conjI impI allI)
  assume "db_fs env = None"
  then show "save_result_to_firestore env result_json material_id source h st = Inr (None, h, st)"
    by (simp add: save_result_to_firestore_cases)
next
  fix db ref_id st1
  assume c: "db_fs env = Some db \<and> document db (FIRESTORE_COLLECTION env) st = Inr (ref_id, st1)"
  let ?doc = "stored_doc env (h ! result_json) material_id source ref_id"
  have run: "save_result_to_firestore env result_json material_id source h st =
      (case set_document db (FIRESTORE_COLLECTION env) ref_id ?doc st1 of
         Inl e \<Rightarrow> Inl e
       | Inr st2 \<Rightarrow> Inr (Some ref_id, h @ [?doc], st2))"
    using c by (simp add: save_result_to_firestore_cases)
  have keep: "\<forall>k \<in> set RESULT_FIELDS. ?doc k = (h ! result_json) k"
    using result_fields_not_added by (simp add: stored_doc_keeps)
  have keys: "dom ?doc = set RESULT_FIELDS \<union> set PROVENANCE_FIELDS \<union> {''id''}"
    using assms(2) by (simp add: dom_stored_doc)
  from run keep keys stored_doc_added [of env "h ! result_json" material_id source ref_id]
  show "\<exists>doc.
      save_result_to_firestore env result_json material_id source h st =
        (case set_document db (FIRESTORE_COLLECTION env) ref_id doc st1 of
           Inl e \<Rightarrow> Inl e
         | Inr st2 \<Rightarrow> Inr (Some ref_id, h @ [doc], st2))
      \<and> (\<forall>k \<in> set RESULT_FIELDS. doc k = (h ! result_json) k)
      \<and> dom doc = set RESULT_FIELDS \<union> set PROVENANCE_FIELDS \<union> {''id''}
      \<and> doc ''materialId'' = Some (str_or_None material_id)
      \<and> doc ''source'' = Some (str_or_None source)
      \<and> doc ''threshold'' = Some (PyFloat (CONF_THRESHOLD env))
      \<and> doc ''model'' = Some (PyStr (basename (PT_MODEL_PATH env)))
      \<and> doc ''createdAt'' = Some SERVER_TIMESTAMP
      \<and> doc ''id'' = Some (PyStr ref_id)"
    by (intro exI [of _ ?doc]) simp
qed

theorem save_result_to_firestore_document_witness:
  "0 < length [verdict_builder (Some demo_detection)]
   \<and> dom ([verdict_builder (Some demo_detection)] ! 0) = set RESULT_FIELDS
   \<and> save_result_to_firestore (demo_env None) 0 ''M 1'' ''api_verify''
        [verdict_builder (Some demo_detection)] [] =
       Inr (None, [verdict_builder (Some demo_detection)], [])
   \<and> (\<exists>doc. save_result_to_firestore (demo_env (Some demo_store)) 0 ''M 1'' ''api_verify''
          [verdict_builder (Some demo_detection)] [] =
        Inr (Some ''doc0'', [verdict_builder (Some demo_detection), doc],
             [(''ai_verifications'', ''doc0'', doc)])
       \<and> map doc RESULT_FIELDS =
           [Some (PyBool True), Some (PyStr ''verified''), Some (PyStr ''bolt''),
            Some (PyFloat 0.81)]
       \<and> dom doc = set RESULT_FIELDS \<union> set PROVENANCE_FIELDS \<union> {''id''}
       \<and> map doc PROVENANCE_FIELDS =
           [Some (PyStr ''M 1''), Some (PyStr ''api_verify''), Some (PyFloat 0.35),
            Some (PyStr ''best.pt''), Some SERVER_TIMESTAMP]
       \<and> doc ''id'' = Some (PyStr ''doc0''))"
proof -
  define h where "h = [verdict_builder (Some demo_detection)]"
  define env where "env = demo_env (Some demo_store)"
  have l: "0 < length h" by (simp add: h_def)
  have d: "dom (h ! 0) = set RESULT_FIELDS" by (simp add: h_def dom_verdict_builder)
  have n: "db_fs (demo_env None) = None" by (simp add: demo_env_def)
  have s: "db_fs env = Some demo_store
      \<and> document demo_store (FIRESTORE_COLLECTION env) [] = Inr (''doc0'', [])"
    by (simp add: env_def demo_env_def demo_store_def str_nat.simps digit_char_def)
  have c: "FIRESTORE_COLLECTION env = ''ai_verifications''" "CONF_THRESHOLD env = 0.35"
      "basename (PT_MODEL_PATH env) = ''best.pt''"
    by (simp_all add: env_def demo_env_def basename_def)
  have r1: "save_result_to_firestore (demo_env None) 0 ''M 1'' ''api_verify'' h [] = Inr (None, h, [])"
    using save_result_to_firestore_document [OF l d, of "demo_env None" "''M 1''" "''api_verify''" "[]"] n
    by blast
  note t = save_result_to_firestore_document [OF l d, of env "''M 1''" "''api_verify''" "[]"]
  note t2 = t [THEN conjunct2, rule_format, OF s]
  from t2 obtain doc where doc:
      "save_result_to_firestore env 0 ''M 1'' ''api_verify'' h [] =
        (case set_document demo_store (FIRESTORE_COLLECTION env) ''doc0'' doc [] of
           Inl e \<Rightarrow> Inl e
         | Inr st2 \<Rightarrow> Inr (Some ''doc0'', h @ [doc], st2))"
      "\<forall>k \<in> set RESULT_FIELDS. doc k = (h ! 0) k"
      "dom doc = set RESULT_FIELDS \<union> set PROVENANCE_FIELDS \<union> {''id''}"
      "doc ''materialId'' = Some (str_or_None ''M 1'')"
      "doc ''source'' = Some (str_or_None ''api_verify'')"
      "doc ''threshold'' = Some (PyFloat (CONF_THRESHOLD env))"
      "doc ''model'' = Some (PyStr (basename (PT_MODEL_PATH env)))"
      "doc ''createdAt'' = Some SERVER_TIMESTAMP"
      "doc ''id'' = Some (PyStr ''doc0'')"
    by (elim exE conjE)
  have w: "save_result_to_firestore env 0 ''M 1'' ''api_verify'' h [] =
      Inr (Some ''doc0'', h @ [doc], [(''ai_verifications'', ''doc0'', doc)])"
    unfolding doc(1) c by (simp add: demo_store_def)
  have f: "map doc RESULT_FIELDS =
      [Some (PyBool True), Some (PyStr ''verified''), Some (PyStr ''bolt''), Some (PyFloat 0.81)]"
    using doc(2)
    by (simp add: RESULT_FIELDS_def h_def verdict_builder_fields demo_detection_def)
  have p: "map doc PROVENANCE_FIELDS =
      [Some (PyStr ''M 1''), Some (PyStr ''api_verify''), Some (PyFloat 0.35),
       Some (PyStr ''best.pt''), Some SERVER_TIMESTAMP]"
    using doc(4-8) c by (simp add: PROVENANCE_FIELDS_def str_or_None_def)
  from w f doc(3) p doc(9) have
    "\<exists>doc. save_result_to_firestore env 0 ''M 1'' ''api_verify'' h [] =
        Inr (Some ''doc0'', h @ [doc], [(''ai_verifications'', ''doc0'', doc)])
       \<and> map doc RESULT_FIELDS =
           [Some (PyBool True), Some (PyStr ''verified''), Some (PyStr ''bolt''),
            Some (PyFloat 0.81)]
       \<and> dom doc = set RESULT_FIELDS \<union> set PROVENANCE_FIELDS \<union> {''id''}
       \<and> map doc PROVENANCE_FIELDS =
           [Some (PyStr ''M 1''), Some (PyStr ''api_verify''), Some (PyFloat 0.35),
            Some (PyStr ''best.pt''), Some SERVER_TIMESTAMP]
       \<and> doc ''id'' = Some (PyStr ''doc0'')"
    by (intro exI [of _ doc]) simp
  with l d r1 show ?thesis unfolding h_def env_def by simp
qed

text \<open>
  The claim as stated allows the five provenance fields and no other key; the stored
  document also has the key \<open>id\<close>.
\<close>

theorem stored_document_id_key_counterexample:
  "save_result_to_firestore (demo_env (Some demo_store)) 0 ''M 1'' ''api_verify''
        [verdict_builder None] [] =
     Inr (Some ''doc0'',
          [verdict_builder None,
           stored_doc (demo_env (Some demo_store)) (verdict_builder None) ''M 1'' ''api_verify''
             ''doc0''],
          [(''ai_verifications'', ''doc0'',
            stored_doc (demo_env (Some demo_store)) (verdict_builder None) ''M 1'' ''api_verify''
              ''doc0'')])
   \<and> stored_doc (demo_env (Some demo_store)) (verdict_builder None) ''M 1'' ''api_verify'' ''doc0''
        ''id'' = Some (PyStr ''doc0'')
   \<and> ''id'' \<notin> dom (verdict_builder None) \<union> set PROVENANCE_FIELDS
   \<and> dom (stored_doc (demo_env (Some demo_store)) (verdict_builder None) ''M 1'' ''api_verify''
             ''doc0'')
       \<noteq> dom (verdict_builder None) \<union> set PROVENANCE_FIELDS"
proof -
  let ?doc = "stored_doc (demo_env (Some demo_store)) (verdict_builder None) ''M 1''
                ''api_verify'' ''doc0''"
  have a: "?doc ''id'' = Some (PyStr ''doc0'')" by (simp add: stored_doc_added)
  have b: "''id'' \<notin> dom (verdict_builder None) \<union> set PROVENANCE_FIELDS"
    by (simp add: dom_verdict_builder RESULT_FIELDS_def PROVENANCE_FIELDS_def)
  from a have "''id'' \<in> dom ?doc" by blast
  with b have c: "dom ?doc \<noteq> dom (verdict_builder None) \<union> set PROVENANCE_FIELDS" by metis
  from demo_save [of "''M 1''" "''api_verify''" "verdict_builder None"] a b c
  show ?thesis by simp
qed

text \<open>
  Claim C8, as amended.  When \<open>verify_web\<close> receives an image that decodes, inference
  and persistence return, and the callback is not empty, the response is a redirect to
  the callback followed by \<open>?\<close> and a query string.  Read back, the query string
  holds exactly the parameters \<open>id\<close> (the material id), \<open>aiStatus\<close>,
  \<open>aiComponent\<close> (the empty string when the component is null), \<open>aiConfidence\<close> (the
  confidence as the nearest decimal with six places) and \<open>aiDocId\<close> (the empty string
  when persistence was skipped), in this order, whatever bytes the material id has.  When
  the callback itself contains neither \<open>?\<close> nor \<open>#\<close>, these are exactly the query
  parameters of the redirect URL.
\<close>

theorem verify_web_callback_redirect:
  assumes "files req ''image'' = Some f" and "filename f \<noteq> []"
    and "imdecode env (stream f) = Inr (Some img)"
    and "run_pt_inference env img = Inr det"
    and "save_result_to_firestore env (length h) (form_get req ''materialId'') ''verify_web''
           (h @ [verdict_builder det]) st = Inr (doc_id, h2, st2)"
    and "form_get req ''callback'' \<noteq> []"
  shows "\<exists>q six_places.
       verify_web env req h st = Inr (Redirect (form_get req ''callback'' @ ''?'' @ q), h2, st2)
     \<and> parse_qsl q = redirect_params (form_get req ''materialId'') det six_places doc_id
     \<and> six_place_decimal six_places (verdict_confidence det)
     \<and> (CHR ''?'' \<notin> set (form_get req ''callback'') \<and> CHR ''#'' \<notin> set (form_get req ''callback'')
          \<longrightarrow> url_params (form_get req ''callback'' @ ''?'' @ q) =
                redirect_params (form_get req ''materialId'') det six_places doc_id)
     \<and> form_get req ''callback'' @ ''?'' @ q =
         redirect_url (form_get req ''callback'') (form_get req ''materialId'') det doc_id
     \<and> six_places = format_6f (verdict_confidence det)"
proof -
  let ?cb = "form_get req ''callback''"
  let ?mid = "form_get req ''materialId''"
  let ?six = "format_6f (verdict_confidence det)"
  let ?items = "redirect_params ?mid det ?six doc_id"
  let ?q = "join ''&'' (map encoded_piece ?items)"
  have url: "redirect_url ?cb ?mid det doc_id = ?cb @ ''?'' @ ?q"
    by (rule redirect_url_encoded)
  have run: "verify_web env req h st = Inr (Redirect (?cb @ ''?'' @ ?q), h2, st2)"
    using verify_web_after_save [OF assms(1-5)] assms(6) by (simp add: url)
  have decoded: "parse_qsl ?q = ?items"
    by (rule parse_qsl_join)
  have six: "six_place_decimal ?six (verdict_confidence det)"
    by (rule format_6f_six_places)
  have whole: "url_params (?cb @ ''?'' @ ?q) = ?items"
    if "CHR ''?'' \<notin> set ?cb \<and> CHR ''#'' \<notin> set ?cb"
    using redirect_url_params [of ?cb ?mid det doc_id] that by (simp add: url)
  from run decoded six whole url show ?thesis
    by (intro exI [of _ ?q] exI [of _ ?six]) simp
qed


theorem verify_web_callback_redirect_witness:
  "verify_web (demo_env (Some demo_store)) (demo_request ''http://x/cb'' demo_upload) [] [] =
     Inr (Redirect
            ''http://x/cb?id=M+1&aiStatus=verified&aiComponent=bolt&aiConfidence=0.810000&aiDocId=doc0'',
          [verdict_builder (Some demo_detection),
           stored_doc (demo_env (Some demo_store)) (verdict_builder (Some demo_detection))
             ''M 1'' ''verify_web'' ''doc0''],
          [(''ai_verifications'', ''doc0'',
            stored_doc (demo_env (Some demo_store)) (verdict_builder (Some demo_detection))
              ''M 1'' ''verify_web'' ''doc0'')])
   \<and> url_params
        ''http://x/cb?id=M+1&aiStatus=verified&aiComponent=bolt&aiConfidence=0.810000&aiDocId=doc0''
       = [(''id'', ''M 1''), (''aiStatus'', ''verified''), (''aiComponent'', ''bolt''),
          (''aiConfidence'', ''0.810000''), (''aiDocId'', ''doc0'')]
   \<and> six_place_decimal ''0.810000'' (confidence demo_detection)
   \<and> verify_web blank_env (demo_request ''http://x/cb'' demo_upload) [] [] =
     Inr (Redirect
            ''http://x/cb?id=M+1&aiStatus=not_detected&aiComponent=&aiConfidence=0.000000&aiDocId='',
          [verdict_builder None], [])
   \<and> url_params
        ''http://x/cb?id=M+1&aiStatus=not_detected&aiComponent=&aiConfidence=0.000000&aiDocId=''
       = [(''id'', ''M 1''), (''aiStatus'', ''not_detected''), (''aiComponent'', []),
          (''aiConfidence'', ''0.000000''), (''aiDocId'', [])]
   \<and> verify_web rounding_env reserved_request [] [] =
     Inr (Redirect
            ''http://x/cb?id=a%26b%3Dc%2Fd&aiStatus=verified&aiComponent=bolt&aiConfidence=0.350000&aiDocId=doc0'',
          [verdict_builder (Some rounding_detection),
           stored_doc rounding_env (verdict_builder (Some rounding_detection))
             ''a&b=c/d'' ''verify_web'' ''doc0''],
          [(''ai_verifications'', ''doc0'',
            stored_doc rounding_env (verdict_builder (Some rounding_detection))
              ''a&b=c/d'' ''verify_web'' ''doc0'')])
   \<and> url_params
        ''http://x/cb?id=a%26b%3Dc%2Fd&aiStatus=verified&aiComponent=bolt&aiConfidence=0.350000&aiDocId=doc0''
       = [(''id'', ''a&b=c/d''), (''aiStatus'', ''verified''), (''aiComponent'', ''bolt''),
          (''aiConfidence'', ''0.350000''), (''aiDocId'', ''doc0'')]
   \<and> six_place_decimal ''0.350000'' (confidence rounding_detection)"
proof -
  define req where "req = demo_request ''http://x/cb'' demo_upload"
  define env where "env = demo_env (Some demo_store)"
  define f where "f = \<lparr>filename = ''a.jpg'', stream = ''JFIF''\<rparr>"
  define v where "v = verdict_builder (Some demo_detection)"
  have a1: "files req ''image'' = Some f"
    by (simp add: req_def f_def demo_request_fields demo_upload_image)
  have a2: "filename f \<noteq> []" by (simp add: f_def)
  have a3: "imdecode env (stream f) = Inr (Some ''JFIF'')"
    by (simp add: env_def f_def demo_imdecode)
  have a4: "run_pt_inference env ''JFIF'' = Inr (Some demo_detection)"
    unfolding env_def by (rule demo_inference)
  have mid: "form_get req ''materialId'' = ''M 1''" and cb: "form_get req ''callback'' = ''http://x/cb''"
    by (simp_all add: req_def demo_request_fields)
  have a5: "save_result_to_firestore env (length []) (form_get req ''materialId'') ''verify_web''
        ([] @ [verdict_builder (Some demo_detection)]) [] =
      Inr (Some ''doc0'', [v, stored_doc env v ''M 1'' ''verify_web'' ''doc0''],
           [(''ai_verifications'', ''doc0'', stored_doc env v ''M 1'' ''verify_web'' ''doc0'')])"
    unfolding env_def mid v_def by (simp add: demo_save)
  have a6: "form_get req ''callback'' \<noteq> []" by (simp add: cb)
  have plain: "CHR ''?'' \<notin> set (form_get req ''callback'')
      \<and> CHR ''#'' \<notin> set (form_get req ''callback'')"
    by (simp add: cb)
  from verify_web_callback_redirect [OF a1 a2 a3 a4 a5 a6]
  obtain q six where r:
      "verify_web env req [] [] =
         Inr (Redirect (form_get req ''callback'' @ ''?'' @ q),
              [v, stored_doc env v ''M 1'' ''verify_web'' ''doc0''],
              [(''ai_verifications'', ''doc0'', stored_doc env v ''M 1'' ''verify_web'' ''doc0'')])"
      "six_place_decimal six (verdict_confidence (Some demo_detection))"
      "CHR ''?'' \<notin> set (form_get req ''callback'') \<and> CHR ''#'' \<notin> set (form_get req ''callback'')
        \<longrightarrow> url_params (form_get req ''callback'' @ ''?'' @ q) =
              redirect_params (form_get req ''materialId'') (Some demo_detection) six (Some ''doc0'')"
      "form_get req ''callback'' @ ''?'' @ q =
         redirect_url (form_get req ''callback'') (form_get req ''materialId'')
           (Some demo_detection) (Some ''doc0'')"
      "six = format_6f (verdict_confidence (Some demo_detection))"
    by (elim exE conjE)
  have six1: "six = ''0.810000''" unfolding r(5) by (rule demo_confidence)
  have url1: "form_get req ''callback'' @ ''?'' @ q =
      ''http://x/cb?id=M+1&aiStatus=verified&aiComponent=bolt&aiConfidence=0.810000&aiDocId=doc0''"
    using r(4) unfolding mid cb by (simp only: demo_redirect_url)
  have c1: "verify_web env req [] [] =
      Inr (Redirect
             ''http://x/cb?id=M+1&aiStatus=verified&aiComponent=bolt&aiConfidence=0.810000&aiDocId=doc0'',
           [v, stored_doc env v ''M 1'' ''verify_web'' ''doc0''],
           [(''ai_verifications'', ''doc0'', stored_doc env v ''M 1'' ''verify_web'' ''doc0'')])"
    using r(1) unfolding url1 .
  have c2: "url_params
        ''http://x/cb?id=M+1&aiStatus=verified&aiComponent=bolt&aiConfidence=0.810000&aiDocId=doc0''
      = [(''id'', ''M 1''), (''aiStatus'', ''verified''), (''aiComponent'', ''bolt''),
         (''aiConfidence'', ''0.810000''), (''aiDocId'', ''doc0'')]"
    using r(3) [rule_format, OF plain] unfolding url1 six1 mid
    by (simp add: redirect_params_def demo_detection_def)
  have c3: "six_place_decimal ''0.810000'' (confidence demo_detection)"
    using r(2) unfolding six1 by (simp add: verdict_confidence_def)
  have b3: "imdecode blank_env (stream f) = Inr (Some ''JFIF'')"
    by (simp add: f_def blank_run)
  have b5: "save_result_to_firestore blank_env (length []) (form_get req ''materialId'')
        ''verify_web'' ([] @ [verdict_builder None]) [] = Inr (None, [verdict_builder None], [])"
    by (simp add: blank_run)
  from verify_web_callback_redirect [OF a1 a2 b3 blank_run(2) b5 a6]
  obtain q0 six0 where n:
      "verify_web blank_env req [] [] =
         Inr (Redirect (form_get req ''callback'' @ ''?'' @ q0), [verdict_builder None], [])"
      "CHR ''?'' \<notin> set (form_get req ''callback'') \<and> CHR ''#'' \<notin> set (form_get req ''callback'')
        \<longrightarrow> url_params (form_get req ''callback'' @ ''?'' @ q0) =
              redirect_params (form_get req ''materialId'') None six0 None"
      "form_get req ''callback'' @ ''?'' @ q0 =
         redirect_url (form_get req ''callback'') (form_get req ''materialId'') None None"
      "six0 = format_6f (verdict_confidence None)"
    by (elim exE conjE)
  have six0: "six0 = ''0.000000''" unfolding n(4) by (rule demo_confidence)
  have url0: "form_get req ''callback'' @ ''?'' @ q0 =
      ''http://x/cb?id=M+1&aiStatus=not_detected&aiComponent=&aiConfidence=0.000000&aiDocId=''"
    using n(3) unfolding mid cb by (simp only: blank_redirect_url)
  have c4: "verify_web blank_env req [] [] =
      Inr (Redirect
             ''http://x/cb?id=M+1&aiStatus=not_detected&aiComponent=&aiConfidence=0.000000&aiDocId='',
           [verdict_builder None], [])"
    using n(1) unfolding url0 .
  have c5: "url_params
        ''http://x/cb?id=M+1&aiStatus=not_detected&aiComponent=&aiConfidence=0.000000&aiDocId=''
      = [(''id'', ''M 1''), (''aiStatus'', ''not_detected''), (''aiComponent'', []),
         (''aiConfidence'', ''0.000000''), (''aiDocId'', [])]"
    using n(2) [rule_format, OF plain] unfolding url0 six0 mid
    by (simp add: redirect_params_def)
  define v3 where "v3 = verdict_builder (Some rounding_detection)"
  have e1: "files reserved_request ''image'' = Some f"
    by (simp add: f_def rounding_run)
  have e2: "filename f \<noteq> []" by (simp add: f_def)
  have e3: "imdecode rounding_env (stream f) = Inr (Some ''JFIF'')"
    by (simp add: f_def rounding_run)
  have e5: "save_result_to_firestore rounding_env (length [])
        (form_get reserved_request ''materialId'') ''verify_web''
        ([] @ [verdict_builder (Some rounding_detection)]) [] =
      Inr (Some ''doc0'', [v3, stored_doc rounding_env v3 ''a&b=c/d'' ''verify_web'' ''doc0''],
           [(''ai_verifications'', ''doc0'',
             stored_doc rounding_env v3 ''a&b=c/d'' ''verify_web'' ''doc0'')])"
    unfolding rounding_run(3) v3_def by (simp add: rounding_save)
  have e6: "form_get reserved_request ''callback'' \<noteq> []"
    by (simp add: rounding_run)
  have plain3: "CHR ''?'' \<notin> set (form_get reserved_request ''callback'')
      \<and> CHR ''#'' \<notin> set (form_get reserved_request ''callback'')"
    by (simp add: rounding_run)
  from verify_web_callback_redirect [OF e1 e2 e3 rounding_run(5) e5 e6]
  obtain q3 six3 where m:
      "verify_web rounding_env reserved_request [] [] =
         Inr (Redirect (form_get reserved_request ''callback'' @ ''?'' @ q3),
              [v3, stored_doc rounding_env v3 ''a&b=c/d'' ''verify_web'' ''doc0''],
              [(''ai_verifications'', ''doc0'',
                stored_doc rounding_env v3 ''a&b=c/d'' ''verify_web'' ''doc0'')])"
      "six_place_decimal six3 (verdict_confidence (Some rounding_detection))"
      "CHR ''?'' \<notin> set (form_get reserved_request ''callback'')
        \<and> CHR ''#'' \<notin> set (form_get reserved_request ''callback'')
        \<longrightarrow> url_params (form_get reserved_request ''callback'' @ ''?'' @ q3) =
              redirect_params (form_get reserved_request ''materialId'')
                (Some rounding_detection) six3 (Some ''doc0'')"
      "form_get reserved_request ''callback'' @ ''?'' @ q3 =
         redirect_url (form_get reserved_request ''callback'')
           (form_get reserved_request ''materialId'') (Some rounding_detection) (Some ''doc0'')"
      "six3 = format_6f (verdict_confidence (Some rounding_detection))"
    by (elim exE conjE)
  have six3: "six3 = ''0.350000''"
    unfolding m(5) by (simp add: verdict_confidence_def format_6f_rounding)
  have url3: "form_get reserved_request ''callback'' @ ''?'' @ q3 =
      ''http://x/cb?id=a%26b%3Dc%2Fd&aiStatus=verified&aiComponent=bolt&aiConfidence=0.350000&aiDocId=doc0''"
    using m(4) unfolding rounding_run(2,3) by (simp only: rounding_redirect_url)
  have c6: "verify_web rounding_env reserved_request [] [] =
      Inr (Redirect
             ''http://x/cb?id=a%26b%3Dc%2Fd&aiStatus=verified&aiComponent=bolt&aiConfidence=0.350000&aiDocId=doc0'',
           [v3, stored_doc rounding_env v3 ''a&b=c/d'' ''verify_web'' ''doc0''],
           [(''ai_verifications'', ''doc0'',
             stored_doc rounding_env v3 ''a&b=c/d'' ''verify_web'' ''doc0'')])"
    using m(1) unfolding url3 .
  have c7: "url_params
        ''http://x/cb?id=a%26b%3Dc%2Fd&aiStatus=verified&aiComponent=bolt&aiConfidence=0.350000&aiDocId=doc0''
      = [(''id'', ''a&b=c/d''), (''aiStatus'', ''verified''), (''aiComponent'', ''bolt''),
         (''aiConfidence'', ''0.350000''), (''aiDocId'', ''doc0'')]"
    using m(3) [rule_format, OF plain3] unfolding url3 six3 rounding_run(3)
    by (simp add: redirect_params_def rounding_detection_def)
  have c8: "six_place_decimal ''0.350000'' (confidence rounding_detection)"
    using m(2) unfolding six3 by (simp add: verdict_confidence_def)
  from c1 c2 c3 c4 c5 c6 c7 c8 show ?thesis
    unfolding req_def env_def v_def v3_def by (intro conjI)
qed

text \<open>
  The claim as stated speaks of every non-empty callback.  The handler appends \<open>?\<close>
  and the query string to the callback as it is, so for a callback that has a query of
  its own the redirect URL carries no parameter \<open>id\<close>: its first parameter is \<open>a\<close>,
  whose value swallows the appended \<open>?id=...\<close>.
\<close>

theorem callback_with_query_counterexample:
  "verify_web (demo_env (Some demo_store)) (demo_request ''http://x/cb?a=1'' demo_upload) [] [] =
     Inr (Redirect
            ''http://x/cb?a=1?id=M+1&aiStatus=verified&aiComponent=bolt&aiConfidence=0.810000&aiDocId=doc0'',
          [verdict_builder (Some demo_detection),
           stored_doc (demo_env (Some demo_store)) (verdict_builder (Some demo_detection))
             ''M 1'' ''verify_web'' ''doc0''],
          [(''ai_verifications'', ''doc0'',
            stored_doc (demo_env (Some demo_store)) (verdict_builder (Some demo_detection))
              ''M 1'' ''verify_web'' ''doc0'')])
   \<and> url_params
        ''http://x/cb?a=1?id=M+1&aiStatus=verified&aiComponent=bolt&aiConfidence=0.810000&aiDocId=doc0''
       = [(''a'', ''1?id=M 1''), (''aiStatus'', ''verified''), (''aiComponent'', ''bolt''),
          (''aiConfidence'', ''0.810000''), (''aiDocId'', ''doc0'')]
   \<and> ''id'' \<notin> set (map fst (url_params
        ''http://x/cb?a=1?id=M+1&aiStatus=verified&aiComponent=bolt&aiConfidence=0.810000&aiDocId=doc0''))"
proof -
  define req where "req = demo_request ''http://x/cb?a=1'' demo_upload"
  define env where "env = demo_env (Some demo_store)"
  define f where "f = \<lparr>filename = ''a.jpg'', stream = ''JFIF''\<rparr>"
  define v where "v = verdict_builder (Some demo_detection)"
  have a1: "files req ''image'' = Some f"
    by (simp add: req_def f_def demo_request_fields demo_upload_image)
  have a2: "filename f \<noteq> []" by (simp add: f_def)
  have a3: "imdecode env (stream f) = Inr (Some ''JFIF'')"
    by (simp add: env_def f_def demo_imdecode)
  have a4: "run_pt_inference env ''JFIF'' = Inr (Some demo_detection)"
    unfolding env_def by (rule demo_inference)
  have mid: "form_get req ''materialId'' = ''M 1''"
    and cb: "form_get req ''callback'' = ''http://x/cb?a=1''"
    by (simp_all add: req_def demo_request_fields)
  have a5: "save_result_to_firestore env (length []) (form_get req ''materialId'') ''verify_web''
        ([] @ [verdict_builder (Some demo_detection)]) [] =
      Inr (Some ''doc0'', [v, stored_doc env v ''M 1'' ''verify_web'' ''doc0''],
           [(''ai_verifications'', ''doc0'', stored_doc env v ''M 1'' ''verify_web'' ''doc0'')])"
    unfolding env_def mid v_def by (simp add: demo_save)
  have u: "redirect_url ''http://x/cb?a=1'' ''M 1'' (Some demo_detection) (Some ''doc0'') =
      ''http://x/cb?a=1?id=M+1&aiStatus=verified&aiComponent=bolt&aiConfidence=0.810000&aiDocId=doc0''"
    by (simp add: redirect_url_def demo_detection_def format_6f_demo' quote_plus_def
          quote_plus_char_def ALWAYS_SAFE_def)
  have c1: "verify_web env req [] [] =
      Inr (Redirect
             ''http://x/cb?a=1?id=M+1&aiStatus=verified&aiComponent=bolt&aiConfidence=0.810000&aiDocId=doc0'',
           [v, stored_doc env v ''M 1'' ''verify_web'' ''doc0''],
           [(''ai_verifications'', ''doc0'', stored_doc env v ''M 1'' ''verify_web'' ''doc0'')])"
    using verify_web_after_save [OF a1 a2 a3 a4 a5] unfolding mid cb u by simp
  have c2: "url_params
        ''http://x/cb?a=1?id=M+1&aiStatus=verified&aiComponent=bolt&aiConfidence=0.810000&aiDocId=doc0''
      = [(''a'', ''1?id=M 1''), (''aiStatus'', ''verified''), (''aiComponent'', ''bolt''),
         (''aiConfidence'', ''0.810000''), (''aiDocId'', ''doc0'')]"
    by (simp add: url_params_def url_query_def parse_qsl_def before_first_def after_first_def)
  have c3: "''id'' \<notin> set (map fst (url_params
        ''http://x/cb?a=1?id=M+1&aiStatus=verified&aiComponent=bolt&aiConfidence=0.810000&aiDocId=doc0''))"
    unfolding c2 by simp
  from c1 c2 c3 show ?thesis unfolding req_def env_def v_def by (intro conjI)
qed









end
